theory Spec2Isabelle
  imports Complex_Main "HOL-Library.Char_ord" "HOL-Library.List_Lexorder"
begin

section \<open>Strings\<close>

text \<open>
  A Python \<open>str\<close> is modelled as a \<open>string\<close>: a list of characters, each character a code
  point below 256 (the Latin-1 range, which contains ASCII). The character classes below are
  Python's own on that range: \<open>str.isspace\<close> (which is also what \<open>str.strip()\<close> removes and
  what the regular expression class \<open>\s\<close> matches on a \<open>str\<close> pattern) holds of the code points
  9 to 13, 28 to 32, 133 and 160; \<open>str.lower\<close> moves A to Z and the accented capitals 192 to
  222 (except the multiplication sign 215) up by 32 and leaves every other code point alone.
\<close>

definition isspace :: "char \<Rightarrow> bool" where
  "isspace c =
     (let n = (of_char c :: nat)
      in (9 \<le> n \<and> n \<le> 13) \<or> (28 \<le> n \<and> n \<le> 32) \<or> n = 133 \<or> n = 160)"

definition isupper :: "char \<Rightarrow> bool" where
  "isupper c =
     (let n = (of_char c :: nat)
      in (65 \<le> n \<and> n \<le> 90) \<or> (192 \<le> n \<and> n \<le> 222 \<and> n \<noteq> 215))"

definition lower_char :: "char \<Rightarrow> char" where
  "lower_char c = (if isupper c then char_of (of_char c + (32 :: nat)) else c)"

definition lower :: "string \<Rightarrow> string" where
  "lower s = map lower_char s"

definition quote_char :: char where
  "quote_char = CHR 0x22"

text \<open>\<open>s.replace(c, '')\<close> for a one-character \<open>c\<close>: every occurrence is deleted.\<close>

definition remove_char :: "char \<Rightarrow> string \<Rightarrow> string" where
  "remove_char c s = filter (\<lambda>x. x \<noteq> c) s"

text \<open>\<open>s.strip()\<close>, for the class \<open>p\<close> of characters that are stripped at both ends.\<close>

definition strip_by :: "(char \<Rightarrow> bool) \<Rightarrow> string \<Rightarrow> string" where
  "strip_by p s = rev (dropWhile p (rev (dropWhile p s)))"

definition strip :: "string \<Rightarrow> string" where
  "strip s = strip_by isspace s"

text \<open>
  \<open>re.sub(r'[...]+', '_', s)\<close> for a character class \<open>p\<close>: scanning from the left, every maximal
  run of characters of the class is replaced by one underscore.
\<close>

function re_sub_runs :: "(char \<Rightarrow> bool) \<Rightarrow> string \<Rightarrow> string" where
  "re_sub_runs p [] = []"
| "re_sub_runs p (c # cs) =
     (if p c then CHR ''_'' # re_sub_runs p (dropWhile p cs) else c # re_sub_runs p cs)"
  by pat_completeness auto
termination
  by (relation "measure (\<lambda>(p, s). length s)") (auto simp: length_dropWhile_le less_Suc_eq_le)

subsection \<open>The column normalizers\<close>

text \<open>
  \<open>clean_column_name\<close> of \<open>src/utils.py\<close> (and the identical \<open>clean_column\<close> of
  \<open>src/simple_etl.py\<close>):
  \<^verbatim>\<open>name = name.replace('"', '').strip(); name = re.sub(r'\s+', '_', name); return name.lower()\<close>
\<close>

definition clean_column_name :: "string \<Rightarrow> string" where
  "clean_column_name name = lower (re_sub_runs isspace (strip (remove_char quote_char name)))"

definition clean_column :: "string \<Rightarrow> string" where
  "clean_column name = lower (re_sub_runs isspace (strip (remove_char quote_char name)))"

text \<open>
  The header cleaning of \<open>_load_and_standardize_game_data\<close> in \<open>src/etl/generate_sessions.py\<close>,
  applied to each column name:
  \<^verbatim>\<open>df.columns.str.strip().str.lower().str.replace(r'[\s\-]+', '_', regex=True)\<close>
\<close>

definition space_or_hyphen :: "char \<Rightarrow> bool" where
  "space_or_hyphen c = (isspace c \<or> c = CHR ''-'')"

definition standardize_header :: "string \<Rightarrow> string" where
  "standardize_header name = re_sub_runs space_or_hyphen (lower (strip name))"

text \<open>
  Two functions of Python's that the code does not call, used to say what the normalizer
  computes: \<open>s.split()\<close> (the maximal runs of non-whitespace characters, in order) and
  \<open>'_'.join(ws)\<close>.
\<close>

function split_ws :: "string \<Rightarrow> string list" where
  "split_ws s =
     (let t = dropWhile isspace s
      in if t = [] then []
         else takeWhile (\<lambda>c. \<not> isspace c) t # split_ws (dropWhile (\<lambda>c. \<not> isspace c) t))"
  by pat_completeness auto
termination
proof (relation "measure length")
  show "wf (measure length)" by simp
next
  fix s t :: string
  assume t: "t = dropWhile isspace s" and ne: "t \<noteq> []"
  from ne obtain c cs where cs: "t = c # cs" by (cases t) auto
  with t have "\<not> isspace c" by (metis hd_dropWhile list.sel(1) ne)
  with cs have "length (dropWhile (\<lambda>c. \<not> isspace c) t) \<le> length cs"
    by (simp add: length_dropWhile_le)
  moreover have "length t \<le> length s" by (simp add: t length_dropWhile_le)
  ultimately show "(dropWhile (\<lambda>c. \<not> isspace c) t, s) \<in> measure length"
    using cs by simp
qed

declare split_ws.simps [simp del]

fun join_underscore :: "string list \<Rightarrow> string" where
  "join_underscore [] = []"
| "join_underscore [w] = w"
| "join_underscore (w # v # ws) = w @ CHR ''_'' # join_underscore (v # ws)"

text \<open>
  \<open>re.split(r'[...]+', s)\<close> for a character class \<open>p\<close>: the fields between the maximal runs
  of characters of the class, in order; a string that starts or ends with such a run has an
  empty first or last field. The code does not call it: it is used to say what
  \<open>re_sub_runs\<close> computes.
\<close>

function split_runs :: "(char \<Rightarrow> bool) \<Rightarrow> string \<Rightarrow> string list" where
  "split_runs p s =
     (let w = takeWhile (\<lambda>c. \<not> p c) s;
          r = dropWhile (\<lambda>c. \<not> p c) s
      in if r = [] then [w] else w # split_runs p (dropWhile p r))"
  by pat_completeness auto
termination
proof (relation "measure (\<lambda>(p, s). length s)")
  show "wf (measure (\<lambda>(p, s). length s))" by simp
next
  fix p :: "char \<Rightarrow> bool" and s w r :: string
  assume r: "r = dropWhile (\<lambda>c. \<not> p c) s" and ne: "r \<noteq> []"
  from ne obtain c cs where cs: "r = c # cs" by (cases r) auto
  have "\<not> \<not> p (hd r)" using ne unfolding r by (rule hd_dropWhile)
  with cs have "p c" by simp
  with cs have "length (dropWhile p r) \<le> length cs" by (simp add: length_dropWhile_le)
  moreover have "length r \<le> length s" by (simp add: r length_dropWhile_le)
  ultimately show "((p, dropWhile p r), (p, s)) \<in> measure (\<lambda>(p, s). length s)"
    using cs by simp
qed

declare split_runs.simps [simp del]

section \<open>Values, errors and the numeric cleaners\<close>

text \<open>
  The exceptions of Python that the modelled code can raise. A function that can raise
  returns \<open>py_error + 'a\<close>, with \<open>Inl\<close> for the exception.
\<close>

datatype py_error = ValueError | ZeroDivisionError | OverflowError | TypeError | DatabaseError

text \<open>
  A Python \<open>float\<close> is a rational number (every finite double is one), an infinity or NaN.
  Arithmetic on finite floats is modelled exactly, without the rounding of the hardware.
\<close>

datatype pyfloat = Finite rat | PosInf | NegInf | NaN

text \<open>
  The values a cell can hold: an \<open>int\<close>, a \<open>float\<close>, a \<open>str\<close>, the missing sentinel \<open>pd.NA\<close>,
  or an object of any other type.
\<close>

datatype pyval = PyInt int | PyFloat pyfloat | PyStr string | PyNA | PyObj

subsection \<open>The built-in \<open>int(str)\<close>\<close>

text \<open>
  \<open>int(s)\<close> in base 10 skips surrounding whitespace (for \<open>int\<close> that is the code points 9 to
  13, 32, 133 and 160: not 28 to 31), reads an optional sign and then decimal digits, where
  single underscores may stand between digits. Anything else is a \<open>ValueError\<close>, and so is a
  literal with more digit characters than the interpreter's limit \<open>max_str_digits\<close> (4300 by
  default since Python 3.11; 0 switches the limit off).
\<close>

definition int_space :: "char \<Rightarrow> bool" where
  "int_space c =
     (let n = (of_char c :: nat) in (9 \<le> n \<and> n \<le> 13) \<or> n = 32 \<or> n = 133 \<or> n = 160)"

definition is_digit :: "char \<Rightarrow> bool" where
  "is_digit c = (let n = (of_char c :: nat) in 48 \<le> n \<and> n \<le> 57)"

definition digit_val :: "char \<Rightarrow> int" where
  "digit_val c = int (of_char c) - 48"

fun digits_ok :: "string \<Rightarrow> bool" where
  "digits_ok [] = False"
| "digits_ok [c] = is_digit c"
| "digits_ok (c # d # cs) =
     (is_digit c \<and> (if d = CHR ''_'' then digits_ok cs else digits_ok (d # cs)))"

definition digits_value :: "string \<Rightarrow> int" where
  "digits_value s = foldl (\<lambda>a c. 10 * a + digit_val c) 0 (filter is_digit s)"

definition py_int :: "nat \<Rightarrow> string \<Rightarrow> py_error + int" where
  "py_int max_str_digits s =
     (let t = strip_by int_space s;
          neg = (t \<noteq> [] \<and> hd t = CHR ''-'');
          body = (if t \<noteq> [] \<and> (hd t = CHR ''-'' \<or> hd t = CHR ''+'') then tl t else t)
      in if \<not> digits_ok body then Inl ValueError
         else if 0 < max_str_digits \<and> max_str_digits < length (filter is_digit body)
         then Inl ValueError
         else Inr (if neg then - digits_value body else digits_value body))"

subsection \<open>\<open>clean_numeric_string\<close> (\<open>src/utils.py\<close>)\<close>

text \<open>
  \<^verbatim>\<open>
  if isinstance(value, (int, float)): return value
  if isinstance(value, str):
      cleaned_value = value.replace('"', '').replace(',', '')
      try:
          if '.' in cleaned_value: return float(cleaned_value)
          else: return int(cleaned_value)
      except ValueError: return pd.NA
  return pd.NA
  \<close>
  The built-in \<open>float(str)\<close> is a parameter \<open>py_float\<close>: it gives the float, or \<open>None\<close> when it
  raises \<open>ValueError\<close> (the only exception it raises on a \<open>str\<close>). The \<open>except\<close> clause
  catches \<open>ValueError\<close> only: any other exception would leave the function.
\<close>

definition clean_numeric_string ::
  "nat \<Rightarrow> (string \<Rightarrow> pyfloat option) \<Rightarrow> pyval \<Rightarrow> py_error + pyval" where
  "clean_numeric_string max_str_digits py_float v =
     (case v of
        PyInt n \<Rightarrow> Inr (PyInt n)
      | PyFloat x \<Rightarrow> Inr (PyFloat x)
      | PyStr s \<Rightarrow>
          (let cleaned_value = remove_char CHR '','' (remove_char quote_char s)
           in if CHR ''.'' \<in> set cleaned_value
              then (case py_float cleaned_value of
                      Some x \<Rightarrow> Inr (PyFloat x)
                    | None \<Rightarrow> Inr PyNA)
              else (case py_int max_str_digits cleaned_value of
                      Inr n \<Rightarrow> Inr (PyInt n)
                    | Inl ValueError \<Rightarrow> Inr PyNA
                    | Inl e \<Rightarrow> Inl e))
      | _ \<Rightarrow> Inr PyNA)"

text \<open>
  The cleaning of the two numeric columns in \<open>load_daily_data\<close> (\<open>src/etl/pipeline.py\<close>):
  each cell goes through \<open>clean_numeric_string\<close>, then
  \<open>dropna(subset=['peak_no._of_players', 'hours_played'])\<close> removes every row in which one of
  the two is missing (\<open>pd.NA\<close> or a NaN float).
\<close>

record raw_row =
  raw_name :: string
  raw_peak_players :: pyval
  raw_hours_played :: pyval
  raw_date :: int

definition isna :: "pyval \<Rightarrow> bool" where
  "isna v = (v = PyNA \<or> v = PyFloat NaN)"

fun apply_cleaner :: "(pyval \<Rightarrow> py_error + pyval) \<Rightarrow> pyval list \<Rightarrow> py_error + pyval list" where
  "apply_cleaner f [] = Inr []"
| "apply_cleaner f (v # vs) =
     (case f v of
        Inl e \<Rightarrow> Inl e
      | Inr r \<Rightarrow> (case apply_cleaner f vs of Inl e \<Rightarrow> Inl e | Inr rs \<Rightarrow> Inr (r # rs)))"

definition clean_numeric_columns ::
  "nat \<Rightarrow> (string \<Rightarrow> pyfloat option) \<Rightarrow> raw_row list \<Rightarrow> py_error + raw_row list" where
  "clean_numeric_columns max_str_digits py_float df_all =
     (case apply_cleaner (clean_numeric_string max_str_digits py_float) (map raw_peak_players df_all) of
        Inl e \<Rightarrow> Inl e
      | Inr peaks \<Rightarrow>
          (case apply_cleaner (clean_numeric_string max_str_digits py_float) (map raw_hours_played df_all) of
             Inl e \<Rightarrow> Inl e
           | Inr hours \<Rightarrow>
               Inr (filter (\<lambda>r. \<not> isna (raw_peak_players r) \<and> \<not> isna (raw_hours_played r))
                      (map (\<lambda>(r, p, h). r\<lparr>raw_peak_players := p, raw_hours_played := h\<rparr>)
                         (zip df_all (zip peaks hours))))))"

subsection \<open>\<open>_clean_numeric_column\<close> (\<open>src/etl/generate_sessions.py\<close>)\<close>

text \<open>
  \<^verbatim>\<open>series.astype(str).str.replace('[^0-9]', '', regex=True).replace('', '0').astype(int)\<close>
  The argument is the column after \<open>astype(str)\<close>, one string per cell. Every character that
  is not one of the digits 0 to 9 is deleted, an empty result becomes \<open>'0'\<close>, and the string
  is converted to a 64-bit integer: \<open>int\<close> raises \<open>ValueError\<close> past the digit limit, and a
  value that does not fit 64 bits is an \<open>OverflowError\<close>.
\<close>

definition clean_digits_cell :: "nat \<Rightarrow> string \<Rightarrow> py_error + int" where
  "clean_digits_cell max_str_digits s =
     (let d = filter is_digit s;
          d' = (if d = [] then ''0'' else d)
      in case py_int max_str_digits d' of
           Inl e \<Rightarrow> Inl e
         | Inr n \<Rightarrow> if n < 2 ^ 63 then Inr n else Inl OverflowError)"

fun clean_numeric_column :: "nat \<Rightarrow> string list \<Rightarrow> py_error + int list" where
  "clean_numeric_column max_str_digits [] = Inr []"
| "clean_numeric_column max_str_digits (s # series) =
     (case clean_digits_cell max_str_digits s of
        Inl e \<Rightarrow> Inl e
      | Inr n \<Rightarrow>
          (case clean_numeric_column max_str_digits series of
             Inl e \<Rightarrow> Inl e
           | Inr ns \<Rightarrow> Inr (n # ns)))"

section \<open>Game weights\<close>

text \<open>
  \<open>_calculate_game_weights\<close> of \<open>src/etl/generate_sessions.py\<close>. A data frame with the columns
  \<open>name\<close> and \<open>peak_players\<close> is a list of rows; \<open>peak_players\<close> is an integer column (it went
  through \<open>_clean_numeric_column\<close>).
  \<^verbatim>\<open>
  if not all_games_data: return {}
  game_df = pd.concat(all_games_data)
  game_weights = game_df.groupby('name')['peak_players'].mean().rank(method='dense').to_dict()
  \<close>
  \<open>groupby\<close> lists each distinct name once, in sorted order; \<open>mean\<close> is the sum of the group
  divided by its size, computed here exactly; \<open>rank(method='dense')\<close> gives a value the number
  of distinct values that are not greater. The resulting dictionary is a list of pairs with
  distinct keys, in the dictionary's order.
\<close>

type_synonym game_frame = "(string \<times> int) list"

definition group_names :: "game_frame \<Rightarrow> string list" where
  "group_names game_df = sort (remdups (map fst game_df))"

definition group_mean :: "game_frame \<Rightarrow> string \<Rightarrow> rat" where
  "group_mean game_df g =
     (let xs = map snd (filter (\<lambda>r. fst r = g) game_df)
      in of_int (sum_list xs) / of_nat (length xs))"

definition dense_rank :: "rat list \<Rightarrow> rat \<Rightarrow> nat" where
  "dense_rank ms m = length (remdups (filter (\<lambda>x. x \<le> m) ms))"

definition calculate_game_weights :: "game_frame list \<Rightarrow> (string \<times> rat) list" where
  "calculate_game_weights all_games_data =
     (if all_games_data = [] then []
      else let game_df = concat all_games_data;
               names = group_names game_df;
               means = map (group_mean game_df) names
           in map (\<lambda>g. (g, of_nat (dense_rank means (group_mean game_df g)))) names)"

section \<open>Session synthesis from daily records (Mode A)\<close>

text \<open>
  A daily record as the two scripts read it: the game's name, the hours played (a finite
  number; \<open>None\<close> stands for a cell that is not a number) and the date as a day number. A
  timestamp is a number of seconds, counted from midnight of day 0.
\<close>

record daily_record =
  game_name :: string
  hours_played :: "rat option"
  date :: int

record session =
  user_id :: string
  game_id :: string
  session_start :: int
  session_end :: int
  duration :: int

text \<open>
  Python's module \<open>random\<close> keeps one hidden generator. Its state is a value of type \<open>'g\<close>,
  and each function used by the code takes the state and returns its draw with the next
  state. The draws of \<open>uniform\<close> and \<open>gauss\<close> are floats, taken as the rationals they are.
\<close>

record 'g py_random =
  uniform :: "'g \<Rightarrow> rat \<Rightarrow> rat \<Rightarrow> rat \<times> 'g"
  gauss :: "'g \<Rightarrow> rat \<Rightarrow> rat \<Rightarrow> rat \<times> 'g"
  randint :: "'g \<Rightarrow> int \<Rightarrow> int \<Rightarrow> int \<times> 'g"


text \<open>\<open>int(x)\<close> of a float truncates towards zero.\<close>

definition py_trunc :: "rat \<Rightarrow> int" where
  "py_trunc x = (if 0 \<le> x then \<lfloor>x\<rfloor> else \<lceil>x\<rceil>)"

text \<open>\<open>str(n)\<close> of a non-negative integer, as the f-strings \<open>f"user_{n}"\<close> print it.\<close>

definition digit_char :: "nat \<Rightarrow> char" where
  "digit_char d = char_of (48 + d)"

fun decimal :: "nat \<Rightarrow> string" where
  "decimal n = (if n < 10 then [digit_char n] else decimal (n div 10) @ [digit_char (n mod 10)])"

declare decimal.simps [simp del]

text \<open>Reading a decimal numeral back.\<close>

definition decimal_value :: "string \<Rightarrow> nat" where
  "decimal_value s = foldl (\<lambda>a c. 10 * a + (of_char c - 48)) 0 s"

text \<open>\<open>f"user_{user_counter}"\<close>, the identifier both scripts give the user of a session.\<close>

definition user_label :: "nat \<Rightarrow> string" where
  "user_label user_counter = ''user_'' @ decimal user_counter"

subsection \<open>\<open>main\<close> of \<open>src/simulate_sessions.py\<close>\<close>

text \<open>The settings the script reads from \<open>config.yaml\<close>.\<close>

record main_config =
  avg_session_duration_min :: rat
  max_sessions_per_day :: int
  session_duration_min :: int
  session_duration_max :: int
  session_count_noise :: rat
  session_peak_hour :: rat
  session_peak_stddev :: rat

text \<open>
  The number of sessions of one record, from its hours and the noise draw \<open>u\<close>:
  \<^verbatim>\<open>
  total_minutes = total_hours * 60
  est_sessions = total_minutes / AVG_SESSION_DURATION_MIN
  est_sessions += random.uniform(-SESSION_COUNT_NOISE, SESSION_COUNT_NOISE) * est_sessions
  num_sessions = max(1, int(est_sessions))
  num_sessions = min(num_sessions, MAX_SESSIONS_PER_DAY)
  \<close>
\<close>

definition est_sessions :: "main_config \<Rightarrow> rat \<Rightarrow> rat" where
  "est_sessions cfg total_hours = total_hours * 60 / avg_session_duration_min cfg"

definition num_sessions :: "main_config \<Rightarrow> rat \<Rightarrow> rat \<Rightarrow> int" where
  "num_sessions cfg total_hours u =
     (let est = est_sessions cfg total_hours;
          est' = est + u * est
      in min (max 1 (py_trunc est')) (max_sessions_per_day cfg))"

text \<open>
  The inner loop \<open>for _ in range(num_sessions)\<close>, with the user counter and the generator's
  state passed along. \<open>random.randint(a, b)\<close> raises \<open>ValueError\<close> on an empty range.
\<close>

fun main_sessions ::
  "'g py_random \<Rightarrow> main_config \<Rightarrow> daily_record \<Rightarrow> nat \<Rightarrow> nat \<Rightarrow> 'g
     \<Rightarrow> py_error + (session list \<times> nat \<times> 'g)" where
  "main_sessions R cfg row 0 user_counter g = Inr ([], user_counter, g)"
| "main_sessions R cfg row (Suc k) user_counter g =
     (let user_counter' = user_counter + 1;
          (x, g1) = gauss R g (session_peak_hour cfg) (session_peak_stddev cfg);
          start_hour = max 0 (min 23 (py_trunc x));
          (start_minute, g2) = randint R g1 0 59;
          (start_second, g3) = randint R g2 0 59;
          start = date row * 86400 + start_hour * 3600 + start_minute * 60 + start_second
      in if session_duration_max cfg < session_duration_min cfg then Inl ValueError
         else
           (let (d, g4) = randint R g3 (session_duration_min cfg) (session_duration_max cfg);
                s = \<lparr>user_id = user_label user_counter', game_id = game_name row,
                      session_start = start, session_end = start + d * 60, duration = d\<rparr>
            in case main_sessions R cfg row k user_counter' g4 of
                 Inl e \<Rightarrow> Inl e
               | Inr (ss, uc, g') \<Rightarrow> Inr (s # ss, uc, g')))"

text \<open>
  The outer loop over the rows. A record with \<open>hours_played <= 0\<close> is skipped; comparing a
  cell that is not a number with 0 is a \<open>TypeError\<close>; a zero average session duration is a
  \<open>ZeroDivisionError\<close>.
\<close>

fun main_rows ::
  "'g py_random \<Rightarrow> main_config \<Rightarrow> daily_record list \<Rightarrow> nat \<Rightarrow> 'g
     \<Rightarrow> py_error + (session list \<times> nat \<times> 'g)" where
  "main_rows R cfg [] user_counter g = Inr ([], user_counter, g)"
| "main_rows R cfg (row # rows) user_counter g =
     (case hours_played row of
        None \<Rightarrow> Inl TypeError
      | Some total_hours \<Rightarrow>
          if total_hours \<le> 0 then main_rows R cfg rows user_counter g
          else if avg_session_duration_min cfg = 0 then Inl ZeroDivisionError
          else
            (let (u, g1) = uniform R g (- session_count_noise cfg) (session_count_noise cfg);
                 n = num_sessions cfg total_hours u
             in case main_sessions R cfg row (nat n) user_counter g1 of
                  Inl e \<Rightarrow> Inl e
                | Inr (ss, uc, g2) \<Rightarrow>
                    (case main_rows R cfg rows uc g2 of
                       Inl e \<Rightarrow> Inl e
                     | Inr (ss', uc', g3) \<Rightarrow> Inr (ss @ ss', uc', g3))))"

definition simulate_main ::
  "'g py_random \<Rightarrow> main_config \<Rightarrow> daily_record list \<Rightarrow> 'g \<Rightarrow> py_error + session list" where
  "simulate_main R cfg df g = map_sum id fst (main_rows R cfg df 0 g)"

subsection \<open>\<open>simulate_sessions\<close> of \<open>src/etl/pipeline.py\<close>\<close>

text \<open>
  \<open>AVG_SESSION_DURATION_MINUTES\<close> comes from \<open>src/config.py\<close>, which is not among the source
  files: it is the parameter \<open>avg\<close>, an integer number of minutes. Here
  \<open>float(row['hours_played'])\<close> is tried first, and a cell that is not a number is skipped;
  the count is \<open>int(total_minutes / AVG_SESSION_DURATION_MINUTES)\<close>, and a record whose count
  is not positive is skipped. No sessions at all is a \<open>ValueError\<close>.
\<close>

fun pipeline_sessions ::
  "'g py_random \<Rightarrow> int \<Rightarrow> daily_record \<Rightarrow> nat \<Rightarrow> nat \<Rightarrow> 'g \<Rightarrow> session list \<times> nat \<times> 'g" where
  "pipeline_sessions R avg row 0 user_counter g = ([], user_counter, g)"
| "pipeline_sessions R avg row (Suc k) user_counter g =
     (let user_counter' = user_counter + 1;
          (start_hour, g1) = randint R g 0 23;
          (start_minute, g2) = randint R g1 0 59;
          (start_second, g3) = randint R g2 0 59;
          start = date row * 86400 + start_hour * 3600 + start_minute * 60 + start_second;
          s = \<lparr>user_id = user_label user_counter', game_id = game_name row,
                session_start = start, session_end = start + avg * 60, duration = avg\<rparr>;
          (ss, uc, g') = pipeline_sessions R avg row k user_counter' g3
      in (s # ss, uc, g'))"

definition pipeline_num_sessions :: "int \<Rightarrow> rat \<Rightarrow> int" where
  "pipeline_num_sessions avg total_hours = py_trunc (total_hours * 60 / of_int avg)"

fun pipeline_rows ::
  "'g py_random \<Rightarrow> int \<Rightarrow> daily_record list \<Rightarrow> nat \<Rightarrow> 'g
     \<Rightarrow> py_error + (session list \<times> nat \<times> 'g)" where
  "pipeline_rows R avg [] user_counter g = Inr ([], user_counter, g)"
| "pipeline_rows R avg (row # rows) user_counter g =
     (case hours_played row of
        None \<Rightarrow> pipeline_rows R avg rows user_counter g
      | Some total_hours \<Rightarrow>
          if total_hours \<le> 0 then pipeline_rows R avg rows user_counter g
          else if avg = 0 then Inl ZeroDivisionError
          else if pipeline_num_sessions avg total_hours \<le> 0
          then pipeline_rows R avg rows user_counter g
          else
            (let (ss, uc, g1) =
                   pipeline_sessions R avg row (nat (pipeline_num_sessions avg total_hours))
                     user_counter g
             in case pipeline_rows R avg rows uc g1 of
                  Inl e \<Rightarrow> Inl e
                | Inr (ss', uc', g2) \<Rightarrow> Inr (ss @ ss', uc', g2)))"

definition simulate_sessions ::
  "'g py_random \<Rightarrow> int \<Rightarrow> daily_record list \<Rightarrow> 'g \<Rightarrow> py_error + session list" where
  "simulate_sessions R avg df g =
     (case pipeline_rows R avg df 0 g of
        Inl e \<Rightarrow> Inl e
      | Inr (session_logs, uc, g') \<Rightarrow>
          if session_logs = [] then Inl ValueError else Inr session_logs)"

section \<open>Population-weighted simulation (Mode B)\<close>

text \<open>
  \<open>_simulate_user_sessions\<close> of \<open>src/etl/generate_sessions.py\<close>. A \<open>datetime\<close> is its
  proleptic day number (\<open>toordinal()\<close>) with hour, minute, second and microsecond; the
  calendar's limits (years 1 to 9999) are not modelled.
\<close>

record datetime =
  dt_ordinal :: int
  dt_hour :: int
  dt_minute :: int
  dt_second :: int
  dt_microsecond :: int

definition plus_days :: "datetime \<Rightarrow> int \<Rightarrow> datetime" where
  "plus_days dt k = dt\<lparr>dt_ordinal := dt_ordinal dt + k\<rparr>"

definition weekday :: "datetime \<Rightarrow> int" where
  "weekday dt = (dt_ordinal dt + 6) mod 7"

definition replace_hour_minute :: "datetime \<Rightarrow> int \<Rightarrow> int \<Rightarrow> datetime" where
  "replace_hour_minute dt h m = dt\<lparr>dt_hour := h, dt_minute := m\<rparr>"

definition plus_minutes :: "datetime \<Rightarrow> int \<Rightarrow> datetime" where
  "plus_minutes dt d =
     (let total = dt_hour dt * 60 + dt_minute dt + d
      in dt\<lparr>dt_ordinal := dt_ordinal dt + total div 1440,
             dt_hour := (total mod 1440) div 60,
             dt_minute := total mod 60\<rparr>)"

definition day_name :: "datetime \<Rightarrow> string" where
  "day_name dt =
     [''Monday'', ''Tuesday'', ''Wednesday'', ''Thursday'', ''Friday'', ''Saturday'', ''Sunday'']
       ! nat (weekday dt)"

text \<open>
  The record appended for each session. \<open>session_start\<close> and \<open>session_end\<close> are kept as the
  \<open>datetime\<close> whose \<open>isoformat()\<close> the code stores.
\<close>

record sim_session =
  sim_user_id :: string
  sim_game_id :: string
  sim_session_start :: datetime
  sim_session_end :: datetime
  sim_session_duration :: int
  sim_day_of_week :: string
  sim_hour_of_day :: int

text \<open>
  \<open>numpy.random\<close> keeps one hidden generator, with a state of type \<open>'g\<close>. \<open>np.random.seed(n)\<close>
  replaces the state by one that depends on \<open>n\<close> only. \<open>np_choice g n\<close> is the index drawn by
  \<open>np.random.choice\<close> among \<open>n\<close> items, \<open>np_choice_p g p\<close> the index drawn with the
  probabilities \<open>p\<close>, \<open>np_randint g low high\<close> an integer from \<open>low\<close> up to but not including
  \<open>high\<close>; \<open>triangular\<close>, \<open>normal\<close> and \<open>lognormal\<close> give floats.
\<close>

record 'g np_random =
  np_seed :: "nat \<Rightarrow> 'g"
  np_choice :: "'g \<Rightarrow> nat \<Rightarrow> nat \<times> 'g"
  np_choice_p :: "'g \<Rightarrow> rat list \<Rightarrow> nat \<times> 'g"
  np_randint :: "'g \<Rightarrow> int \<Rightarrow> int \<Rightarrow> int \<times> 'g"
  np_triangular :: "'g \<Rightarrow> rat \<Rightarrow> rat \<Rightarrow> rat \<Rightarrow> rat \<times> 'g"
  np_normal :: "'g \<Rightarrow> rat \<Rightarrow> rat \<Rightarrow> rat \<times> 'g"
  np_lognormal :: "'g \<Rightarrow> rat \<Rightarrow> rat \<Rightarrow> rat \<times> 'g"

definition np_random_ok :: "'g np_random \<Rightarrow> bool" where
  "np_random_ok R =
     ((\<forall>g n. 0 < n \<longrightarrow> fst (np_choice R g n) < n) \<and>
      (\<forall>g p. p \<noteq> [] \<longrightarrow> fst (np_choice_p R g p) < length p) \<and>
      (\<forall>g low high. low < high \<longrightarrow>
          low \<le> fst (np_randint R g low high) \<and> fst (np_randint R g low high) < high))"

text \<open>\<open>f'USER_{i:04d}'\<close>: the number in decimal, padded with zeros to four characters.\<close>

definition zfill :: "nat \<Rightarrow> string \<Rightarrow> string" where
  "zfill w s = replicate (w - length s) CHR ''0'' @ s"

definition user_name :: "nat \<Rightarrow> string" where
  "user_name i = ''USER_'' @ zfill 4 (decimal i)"

text \<open>
  \<open>weights_array / sum(weights_array)\<close>: a division by zero gives an array of NaN or
  infinities (\<open>None\<close>), which \<open>np.random.choice\<close> refuses with a \<open>ValueError\<close>, as it refuses
  a negative probability.
\<close>

definition probabilities :: "rat list \<Rightarrow> rat list option" where
  "probabilities weights_array =
     (if sum_list weights_array = 0 then None
      else Some (map (\<lambda>w. w / sum_list weights_array) weights_array))"

text \<open>
  The loop \<open>for i in range(target_session_count)\<close>, over the list of the indices still to
  come. The progress test \<open>(i + 1) % (target_session_count // 10) == 0\<close> comes first in the
  body: it only logs, but it raises \<open>ZeroDivisionError\<close> when the divisor is 0. Then
  \<open>np.random.choice(user_ids)\<close> raises \<open>ValueError\<close> on an empty pool, and
  \<open>np.random.randint(0, simulation_days)\<close> raises \<open>ValueError\<close> unless \<open>simulation_days\<close> is
  positive.
\<close>

fun sim_loop ::
  "'g np_random \<Rightarrow> string list \<Rightarrow> string list \<Rightarrow> rat list option \<Rightarrow> int \<Rightarrow> datetime
     \<Rightarrow> int \<Rightarrow> nat list \<Rightarrow> 'g \<Rightarrow> py_error + (sim_session list \<times> 'g)" where
  "sim_loop R user_ids games probs simulation_days start_date target_session_count [] g =
     Inr ([], g)"
| "sim_loop R user_ids games probs simulation_days start_date target_session_count (i # rest) g =
     (if target_session_count div 10 = 0 then Inl ZeroDivisionError
      else if user_ids = [] then Inl ValueError
      else
        (let (ui, g1) = np_choice R g (length user_ids);
             user = user_ids ! ui
         in case probs of
              None \<Rightarrow> Inl ValueError
            | Some p \<Rightarrow>
                if \<exists>x \<in> set p. x < 0 then Inl ValueError
                else
                  (let (gi, g2) = np_choice_p R g1 p;
                       game = games ! gi
                   in if simulation_days \<le> 0 then Inl ValueError
                      else
                        (let (day_offset, g3) = np_randint R g2 0 simulation_days;
                             current_date = plus_days start_date day_offset;
                             is_weekend = (5 \<le> weekday current_date);
                             (base_hour, g4) =
                               (if is_weekend then np_triangular R g3 12 20 23
                                else np_normal R g3 19 3);
                             hour = py_trunc (min (max base_hour 0) 23);
                             (minute, g5) = np_randint R g4 0 59;
                             session_start = replace_hour_minute current_date hour minute;
                             (x, g6) = np_lognormal R g5 (38 / 10) 1;
                             duration = max 15 (min 600 (py_trunc x));
                             session_end = plus_minutes session_start duration;
                             s = \<lparr>sim_user_id = user, sim_game_id = game,
                                   sim_session_start = session_start,
                                   sim_session_end = session_end,
                                   sim_session_duration = duration,
                                   sim_day_of_week = day_name session_start,
                                   sim_hour_of_day = hour\<rparr>
                         in case sim_loop R user_ids games probs simulation_days start_date
                                   target_session_count rest g6 of
                              Inl e \<Rightarrow> Inl e
                            | Inr (ss, g') \<Rightarrow> Inr (s # ss, g')))))"

text \<open>
  The function itself, given the state \<open>g\<close> in which the caller left NumPy's generator. The
  dictionary \<open>game_weights\<close> is a list of pairs with distinct keys. Without weights it returns
  an empty frame and draws nothing; otherwise it builds the user pool, seeds the generator
  with 42 and runs the loop.
\<close>

definition simulate_user_sessions ::
  "'g np_random \<Rightarrow> 'g \<Rightarrow> (string \<times> rat) list \<Rightarrow> int \<Rightarrow> int \<Rightarrow> datetime \<Rightarrow> int
     \<Rightarrow> py_error + (sim_session list \<times> 'g)" where
  "simulate_user_sessions R g game_weights num_users simulation_days start_date
       target_session_count =
     (if game_weights = [] then Inr ([], g)
      else
        (let games = map fst game_weights;
             weights_array = map snd game_weights;
             probs = probabilities weights_array;
             user_ids = map user_name [1 ..< nat (num_users + 1)];
             g0 = np_seed R 42
         in sim_loop R user_ids games probs simulation_days start_date target_session_count
              [0 ..< nat target_session_count] g0))"

section \<open>The cleaning pass\<close>

text \<open>
  \<open>clean_sessions\<close> of \<open>src/etl/generate_sessions.py\<close>. A row of the session frame has the
  seven columns that \<open>_simulate_user_sessions\<close> writes; a cell can be missing (\<open>None\<close>: NaN,
  NaT or \<open>None\<close>). The two time columns are given as \<open>pd.to_datetime\<close> reads them, in
  nanoseconds.
\<close>

record session_row =
  row_user_id :: "string option"
  row_game_id :: "string option"
  row_session_start :: "int option"
  row_session_end :: "int option"
  row_session_duration :: "int option"
  row_day_of_week :: "string option"
  row_hour_of_day :: "int option"

text \<open>\<open>Series.round()\<close> rounds to the nearest integer, and a tie to the even one.\<close>

definition round_half_even :: "rat \<Rightarrow> int" where
  "round_half_even x =
     (let f = \<lfloor>x\<rfloor>; d = x - of_int f
      in if d < 1 / 2 then f
         else if 1 / 2 < d then f + 1
         else if even f then f else f + 1)"

text \<open>
  \<open>((session_end - session_start).dt.total_seconds() / 60).round()\<close>, computed exactly: the
  minutes between the two timestamps, rounded; missing when a timestamp is.
\<close>

definition recomputed_duration :: "session_row \<Rightarrow> int option" where
  "recomputed_duration r =
     (case (row_session_start r, row_session_end r) of
        (Some s, Some e) \<Rightarrow> Some (round_half_even (of_int (e - s) / 60000000000))
      | _ \<Rightarrow> None)"

definition row_complete :: "session_row \<Rightarrow> bool" where
  "row_complete r =
     (row_user_id r \<noteq> None \<and> row_game_id r \<noteq> None \<and> row_session_start r \<noteq> None \<and>
      row_session_end r \<noteq> None \<and> row_session_duration r \<noteq> None \<and>
      row_day_of_week r \<noteq> None \<and> row_hour_of_day r \<noteq> None)"

text \<open>
  \<^verbatim>\<open>
  if df is None or df.empty: return pd.DataFrame()
  df['session_duration'] = ((df['session_end'] - df['session_start'])
                              .dt.total_seconds() / 60).round().astype(int)
  df = df[df['session_duration'] > 0]
  df = df.dropna()
  \<close>
  \<open>astype(int)\<close> raises a \<open>ValueError\<close> when a duration is missing, that is when a timestamp
  of some row is.
\<close>

definition set_duration :: "session_row \<Rightarrow> session_row" where
  "set_duration r = r\<lparr>row_session_duration := recomputed_duration r\<rparr>"

definition positive_duration :: "session_row \<Rightarrow> bool" where
  "positive_duration r = (case row_session_duration r of Some d \<Rightarrow> 0 < d | None \<Rightarrow> False)"

definition clean_sessions :: "session_row list option \<Rightarrow> py_error + session_row list" where
  "clean_sessions df =
     (case df of
        None \<Rightarrow> Inr []
      | Some rows \<Rightarrow>
          if rows = [] then Inr []
          else if \<exists>r \<in> set rows. recomputed_duration r = None then Inl ValueError
          else Inr (filter row_complete (filter positive_duration (map set_duration rows))))"

section \<open>The persistence sink\<close>

text \<open>
  The session table of the SQLite file as one connection sees it. A table is its rows, each
  with the \<open>session_id\<close> the engine gave it, and the largest id given so far
  (\<open>AUTOINCREMENT\<close>). \<open>disk\<close> is the committed table (\<open>None\<close>: no such table); \<open>txn\<close> is
  the working copy of an open transaction (\<open>None\<close>: no transaction is open, statements
  take effect at once). Python's \<open>sqlite3\<close> opens a transaction before an \<open>INSERT\<close> and not
  before \<open>DROP TABLE\<close> or \<open>CREATE TABLE\<close>; \<open>close()\<close> discards an open transaction.
\<close>

record 'a table =
  table_rows :: "(nat \<times> 'a) list"
  last_id :: nat

record 'a connection =
  disk :: "'a table option"
  txn :: "'a table option option"

definition connect :: "'a table option \<Rightarrow> 'a connection" where
  "connect file = \<lparr>disk = file, txn = None\<rparr>"

definition current :: "'a connection \<Rightarrow> 'a table option" where
  "current c = (case txn c of Some t \<Rightarrow> t | None \<Rightarrow> disk c)"

definition write_table :: "'a connection \<Rightarrow> 'a table option \<Rightarrow> 'a connection" where
  "write_table c t = (case txn c of Some _ \<Rightarrow> c\<lparr>txn := Some t\<rparr> | None \<Rightarrow> c\<lparr>disk := t\<rparr>)"

definition drop_table_if_exists :: "'a connection \<Rightarrow> 'a connection" where
  "drop_table_if_exists c = write_table c None"

definition create_table :: "'a connection \<Rightarrow> py_error + 'a connection" where
  "create_table c =
     (case current c of
        Some _ \<Rightarrow> Inl DatabaseError
      | None \<Rightarrow> Inr (write_table c (Some \<lparr>table_rows = [], last_id = 0\<rparr>)))"

definition begin_txn :: "'a connection \<Rightarrow> 'a connection" where
  "begin_txn c = (case txn c of Some _ \<Rightarrow> c | None \<Rightarrow> c\<lparr>txn := Some (disk c)\<rparr>)"

definition commit :: "'a connection \<Rightarrow> 'a connection" where
  "commit c = (case txn c of Some t \<Rightarrow> \<lparr>disk = t, txn = None\<rparr> | None \<Rightarrow> c)"

definition rollback :: "'a connection \<Rightarrow> 'a connection" where
  "rollback c = c\<lparr>txn := None\<rparr>"

definition close :: "'a connection \<Rightarrow> 'a table option" where
  "close c = disk c"

text \<open>
  One \<open>INSERT\<close>: the row gets the next id. The insertion of the row with index \<open>fail_at\<close>
  of the batch fails (\<open>None\<close>: none does); the rows before it are then already in the
  transaction.
\<close>

definition insert_row :: "'a connection \<Rightarrow> 'a \<Rightarrow> py_error + 'a connection" where
  "insert_row c x =
     (let c' = begin_txn c
      in case current c' of
           None \<Rightarrow> Inl DatabaseError
         | Some t \<Rightarrow>
             Inr (c'\<lparr>txn := Some (Some \<lparr>table_rows = table_rows t @ [(last_id t + 1, x)],
                                         last_id = last_id t + 1\<rparr>)\<rparr>))"

fun insert_rows ::
  "nat option \<Rightarrow> nat \<Rightarrow> 'a connection \<Rightarrow> 'a list \<Rightarrow> py_error \<times> 'a connection + 'a connection" where
  "insert_rows fail_at i c [] = Inr c"
| "insert_rows fail_at i c (x # xs) =
     (if fail_at = Some i then Inl (DatabaseError, c)
      else case insert_row c x of
             Inl e \<Rightarrow> Inl (e, c)
           | Inr c' \<Rightarrow> insert_rows fail_at (Suc i) c' xs)"

text \<open>
  \<open>sessions_df.to_sql('session_logs', conn, if_exists='append', index=False)\<close>: the rows are
  inserted one after the other. Whether pandas itself commits after the last row and rolls
  back when an insertion fails is the parameter \<open>own_txn\<close>; the exception is raised either
  way. The result is the connection, with the exception if there is one.
\<close>

definition to_sql ::
  "bool \<Rightarrow> nat option \<Rightarrow> 'a connection \<Rightarrow> 'a list \<Rightarrow> py_error option \<times> 'a connection" where
  "to_sql own_txn fail_at c sessions_df =
     (case insert_rows fail_at 0 c sessions_df of
        Inl (e, c') \<Rightarrow> (Some e, if own_txn then rollback c' else c')
      | Inr c' \<Rightarrow> (None, if own_txn then commit c' else c'))"

text \<open>
  \<open>setup_database\<close> of \<open>src/etl/pipeline.py\<close>: drop, create, then
  \<^verbatim>\<open>
  try: sessions_df.to_sql(...); conn.commit()
  except Exception: conn.rollback(); raise
  finally: conn.close()
  \<close>
  The result is the file after \<open>close()\<close>, with the exception that leaves the function, if any.
\<close>

definition setup_database ::
  "bool \<Rightarrow> nat option \<Rightarrow> 'a table option \<Rightarrow> 'a list \<Rightarrow> py_error option \<times> 'a table option" where
  "setup_database own_txn fail_at file sessions_df =
     (let conn = connect file;
          conn = drop_table_if_exists conn
      in case create_table conn of
           Inl e \<Rightarrow> (Some e, close conn)
         | Inr conn \<Rightarrow>
             (case to_sql own_txn fail_at conn sessions_df of
                (None, conn) \<Rightarrow> (None, close (commit conn))
              | (Some e, conn) \<Rightarrow> (Some e, close (rollback conn))))"

text \<open>
  The end of \<open>main\<close> in \<open>src/simulate_sessions.py\<close>: nothing is written when there is no
  session; otherwise drop, create, \<open>to_sql\<close> and \<open>commit\<close> are all inside the \<open>try\<close>, an
  exception is printed and not raised again, there is no \<open>rollback\<close>, and \<open>finally\<close> closes
  the connection. The result is the file, and whether an error was printed.
\<close>

definition main_persist ::
  "bool \<Rightarrow> nat option \<Rightarrow> 'a table option \<Rightarrow> 'a list \<Rightarrow> bool \<times> 'a table option" where
  "main_persist own_txn fail_at file session_logs =
     (if session_logs = [] then (False, file)
      else
        (let conn = connect file;
             conn = drop_table_if_exists conn
         in case create_table conn of
              Inl e \<Rightarrow> (True, close conn)
            | Inr conn \<Rightarrow>
                (case to_sql own_txn fail_at conn session_logs of
                   (None, conn) \<Rightarrow> (False, close (commit conn))
                 | (Some e, conn) \<Rightarrow> (True, close conn))))"

text \<open>
  The two tables a run can leave behind: the freshly created, empty one, and the one that
  holds the whole batch, numbered from 1.
\<close>

definition empty_table :: "'a table" where
  "empty_table = \<lparr>table_rows = [], last_id = 0\<rparr>"

definition full_table :: "'a list \<Rightarrow> 'a table" where
  "full_table xs = \<lparr>table_rows = zip [1 ..< length xs + 1] xs, last_id = length xs\<rparr>"

section \<open>Example inputs\<close>

text \<open>Concrete inputs on which the theorems below are instantiated.\<close>

definition example_float :: "string \<Rightarrow> pyfloat option" where
  "example_float s = (if s = ''12.50'' then Some (Finite (25 / 2)) else None)"

definition example_raw_rows :: "raw_row list" where
  "example_raw_rows =
     [\<lparr>raw_name = ''g'', raw_peak_players = PyInt 5, raw_hours_played = PyStr ''abc'', raw_date = 0\<rparr>,
      \<lparr>raw_name = ''h'', raw_peak_players = PyStr ''1,234'', raw_hours_played = PyInt 3, raw_date = 0\<rparr>]"

definition example_games :: "game_frame list" where
  "example_games = [[(''b'', 10), (''a'', 5), (''b'', 20)], [(''c'', 16), (''d'', 5)]]"

text \<open>
  A small deterministic generator that keeps the promises of \<open>numpy.random\<close>
  (\<open>np_random_ok\<close>); its state is a counter. It stands in for NumPy's generator where a
  closed example needs one.
\<close>

definition example_np_random :: "nat np_random" where
  "example_np_random =
     \<lparr>np_seed = (\<lambda>n. n),
      np_choice = (\<lambda>g n. (g mod n, g + 1)),
      np_choice_p = (\<lambda>g p. (g mod length p, g + 1)),
      np_randint = (\<lambda>g low high. (low + int g mod (high - low), g + 1)),
      np_triangular = (\<lambda>g a b c. (b, g + 1)),
      np_normal = (\<lambda>g m s. (m + of_nat (g mod 3) - 1, g + 1)),
      np_lognormal = (\<lambda>g m s. (of_nat (10 + 7 * (g mod 90)), g + 1))\<rparr>"

definition example_start_date :: datetime where
  "example_start_date =
     \<lparr>dt_ordinal = 738156, dt_hour = 0, dt_minute = 0, dt_second = 0, dt_microsecond = 0\<rparr>"

definition example_weights :: "(string \<times> rat) list" where
  "example_weights = [(''Dota 2'', 2), (''Rust'', 1)]"

text \<open>
  A small deterministic generator that keeps the promises of Python's \<open>random\<close>
  (\<open>py_random_ok\<close>), a configuration and a table of daily records.
\<close>

definition example_py_random :: "nat py_random" where
  "example_py_random =
     \<lparr>uniform = (\<lambda>g a b. (a + (b - a) * (of_nat (g mod 11) / 10), g + 1)),
      gauss = (\<lambda>g mu sigma. (mu + sigma * (of_nat (g mod 5) - 2), g + 1)),
      randint = (\<lambda>g a b. (a + int g mod (b - a + 1), g + 1))\<rparr>"

definition example_config :: main_config where
  "example_config =
     \<lparr>avg_session_duration_min = 30, max_sessions_per_day = 50,
      session_duration_min = 15, session_duration_max = 120,
      session_count_noise = 0, session_peak_hour = 20, session_peak_stddev = 3\<rparr>"

definition example_daily :: "daily_record list" where
  "example_daily =
     [\<lparr>game_name = ''Dota 2'', hours_played = Some 1, date = 738156\<rparr>,
      \<lparr>game_name = ''Rust'', hours_played = Some 0, date = 738156\<rparr>,
      \<lparr>game_name = ''Apex'', hours_played = Some (3 / 2), date = 738157\<rparr>]"



text \<open>A session frame with a valid row, a row that ends before it starts, a row without user, a
  row without stored duration and a row of twenty seconds.\<close>

definition example_row ::
  "string option \<Rightarrow> int \<Rightarrow> int \<Rightarrow> int option \<Rightarrow> session_row" where
  "example_row u s e d =
     \<lparr>row_user_id = u, row_game_id = Some ''Rust'', row_session_start = Some s,
      row_session_end = Some e, row_session_duration = d,
      row_day_of_week = Some ''Saturday'', row_hour_of_day = Some 20\<rparr>"

definition example_frame :: "session_row list" where
  "example_frame =
     [example_row (Some ''USER_0001'') 0 1800000000000 (Some 7),
      example_row (Some ''USER_0002'') 1800000000000 0 (Some 30),
      example_row None 0 1800000000000 (Some 30),
      example_row (Some ''USER_0003'') 0 90000000000 None,
      example_row (Some ''USER_0004'') 0 20000000000 (Some 1)]"

section \<open>Properties of the column normalizers\<close>

lemma of_char_lower_char:
  "(of_char (lower_char c) :: nat) = (if isupper c then of_char c + 32 else of_char c)"
  by (auto simp: lower_char_def isupper_def Let_def)

lemma isupper_lower_char: "\<not> isupper (lower_char c)"
  unfolding isupper_def[of "lower_char c"] Let_def of_char_lower_char
  by (auto simp: isupper_def Let_def)

lemma lower_char_idem: "lower_char (lower_char c) = lower_char c"
  using isupper_lower_char[of c] by (simp add: lower_char_def[of "lower_char c"])

lemma isspace_lower_char: "isspace (lower_char c) = isspace c"
  unfolding isspace_def[of "lower_char c"] Let_def of_char_lower_char
  by (auto simp: isupper_def isspace_def Let_def)

lemma lower_char_eq_quote: "lower_char c = quote_char \<longleftrightarrow> c = quote_char"
proof -
  have q: "(of_char quote_char :: nat) = 34" by (simp add: quote_char_def)
  have "lower_char c = quote_char \<longleftrightarrow> (of_char (lower_char c) :: nat) = of_char quote_char"
    by (metis char_of_char)
  also have "\<dots> \<longleftrightarrow> (of_char c :: nat) = of_char quote_char"
    unfolding of_char_lower_char q by (auto simp: isupper_def Let_def)
  also have "\<dots> \<longleftrightarrow> c = quote_char" by (metis char_of_char)
  finally show ?thesis .
qed

lemma set_re_sub_runs: "set (re_sub_runs p s) \<subseteq> insert CHR ''_'' {c \<in> set s. \<not> p c}"
proof (induction p s rule: re_sub_runs.induct)
  case (1 p)
  then show ?case by simp
next
  case (2 p c cs)
  show ?case
  proof (cases "p c")
    case True
    with 2 have "set (re_sub_runs p (dropWhile p cs))
        \<subseteq> insert CHR ''_'' {c \<in> set (dropWhile p cs). \<not> p c}"
      by simp
    moreover have "set (dropWhile p cs) \<subseteq> set cs"
      by (rule set_dropWhileD[THEN subsetI])
    ultimately show ?thesis using True by auto
  next
    case False
    with 2 show ?thesis by auto
  qed
qed

lemma re_sub_runs_id: "\<forall>c \<in> set s. \<not> p c \<Longrightarrow> re_sub_runs p s = s"
  by (induction s) auto

lemma dropWhile_none: "\<forall>c \<in> set s. \<not> p c \<Longrightarrow> dropWhile p s = s"
  by (cases s) auto

lemma strip_by_id: "\<forall>c \<in> set s. \<not> p c \<Longrightarrow> strip_by p s = s"
  by (simp add: strip_by_def dropWhile_none)

lemma set_strip_by: "set (strip_by p s) \<subseteq> set s"
  by (auto simp: strip_by_def dest!: set_dropWhileD)

lemma clean_column_name_chars:
  assumes "c \<in> set (clean_column_name s)"
  shows "\<not> isspace c \<and> c \<noteq> quote_char \<and> lower_char c = c"
proof -
  from assms obtain d where d: "d \<in> set (re_sub_runs isspace (strip (remove_char quote_char s)))"
    and c: "c = lower_char d"
    by (auto simp: clean_column_name_def lower_def)
  from d set_re_sub_runs[of isspace "strip (remove_char quote_char s)"]
  have "d = CHR ''_'' \<or> (d \<in> set (strip (remove_char quote_char s)) \<and> \<not> isspace d)"
    by auto
  moreover have "set (strip (remove_char quote_char s)) \<subseteq> set (remove_char quote_char s)"
    by (simp add: strip_def set_strip_by)
  moreover have "\<not> isspace CHR ''_''" "CHR ''_'' \<noteq> quote_char"
    by (simp_all add: isspace_def quote_char_def)
  ultimately have "\<not> isspace d \<and> d \<noteq> quote_char"
    by (auto simp: remove_char_def)
  with c show ?thesis
    by (simp add: isspace_lower_char lower_char_eq_quote lower_char_idem)
qed

lemma clean_column_name_fixed:
  assumes "\<forall>c \<in> set t. \<not> isspace c \<and> c \<noteq> quote_char \<and> lower_char c = c"
  shows "clean_column_name t = t"
proof -
  have 1: "remove_char quote_char t = t" using assms by (simp add: remove_char_def)
  have 2: "strip t = t" using assms by (simp add: strip_def strip_by_id)
  have 3: "re_sub_runs isspace t = t" using assms by (simp add: re_sub_runs_id)
  have 4: "lower t = t" using assms by (simp add: lower_def map_idI)
  show ?thesis by (simp add: clean_column_name_def 1 2 3 4)
qed

lemma clean_column_eq: "clean_column s = clean_column_name s"
  by (simp add: clean_column_def clean_column_name_def)

lemma rev_dropWhile_rev_Cons:
  "rev (dropWhile p (rev (c # r))) =
     (if \<forall>x \<in> set (c # r). p x then [] else c # rev (dropWhile p (rev r)))"
  by (auto simp: dropWhile_append)

lemma strip_by_Cons:
  "strip_by p (c # r) =
     (if p c then strip_by p r
      else c # rev (dropWhile p (rev r)))"
  by (auto simp: strip_by_def dropWhile_append)

lemma dropWhile_strip_end:
  "dropWhile p (rev (dropWhile p (rev r))) = rev (dropWhile p (rev (dropWhile p r)))"
proof (induction r)
  case Nil
  then show ?case by simp
next
  case (Cons c r)
  show ?case
  proof (cases "\<forall>x \<in> set (c # r). p x")
    case True
    then have "dropWhile p (c # r) = []" by simp
    with True show ?thesis by (simp only: rev_dropWhile_rev_Cons if_True) simp
  next
    case False
    then show ?thesis
      using Cons by (simp only: rev_dropWhile_rev_Cons if_False) (auto simp: dropWhile_append)
  qed
qed

lemma re_sub_runs_append_clean:
  "\<forall>c \<in> set w. \<not> p c \<Longrightarrow> re_sub_runs p (w @ r) = w @ re_sub_runs p r"
  by (induction w) auto

lemma join_underscore_Cons:
  "ws \<noteq> [] \<Longrightarrow> join_underscore (w # ws) = w @ CHR ''_'' # join_underscore ws"
  by (cases ws) auto

lemma split_ws_Nil: "dropWhile isspace s = [] \<Longrightarrow> split_ws s = []"
  by (subst split_ws.simps) simp

lemma split_ws_Cons:
  "dropWhile isspace s \<noteq> [] \<Longrightarrow>
   split_ws s = takeWhile (\<lambda>c. \<not> isspace c) (dropWhile isspace s)
                # split_ws (dropWhile (\<lambda>c. \<not> isspace c) (dropWhile isspace s))"
  by (subst split_ws.simps) (simp add: Let_def)

lemma re_sub_runs_strip_end:
  "re_sub_runs p (rev (dropWhile p (rev (c # r)))) =
     (if \<forall>x \<in> set (c # r). p x then []
      else if p c then CHR ''_'' # re_sub_runs p (rev (dropWhile p (rev (dropWhile p r))))
      else c # re_sub_runs p (rev (dropWhile p (rev r))))"
proof (cases "\<forall>x \<in> set (c # r). p x")
  case True
  then show ?thesis by (simp only: rev_dropWhile_rev_Cons if_True) simp
next
  case False
  then show ?thesis
    by (simp only: rev_dropWhile_rev_Cons if_False re_sub_runs.simps dropWhile_strip_end)
qed

lemma re_sub_runs_strip_split:
  "re_sub_runs isspace (strip s) = join_underscore (split_ws s)"
proof (induction s rule: split_ws.induct)
  case (1 s)
  define t where "t = dropWhile isspace s"
  have strip_s: "strip s = rev (dropWhile isspace (rev t))"
    by (simp add: strip_def strip_by_def t_def)
  show ?case
  proof (cases "t = []")
    case True
    have "split_ws s = []" using True unfolding t_def by (rule split_ws_Nil)
    moreover have "strip s = []" using strip_s True by simp
    ultimately show ?thesis by simp
  next
    case False
    define w where "w = takeWhile (\<lambda>c. \<not> isspace c) t"
    define r where "r = dropWhile (\<lambda>c. \<not> isspace c) t"
    have t_eq: "t = w @ r" by (simp add: w_def r_def)
    have hd_t: "\<not> isspace (hd t)" using False unfolding t_def by (rule hd_dropWhile)
    have w_ne: "w \<noteq> []" using False hd_t by (cases t) (auto simp: w_def)
    have w_ns: "\<forall>c \<in> set w. \<not> isspace c" by (auto simp: w_def dest: set_takeWhileD)
    have IH: "re_sub_runs isspace (strip r) = join_underscore (split_ws r)"
      using "1"[OF t_def False] by (simp add: r_def)
    have split: "split_ws s = w # split_ws r"
      using False by (simp add: split_ws_Cons t_def[symmetric] w_def r_def)
    show ?thesis
    proof (cases "\<forall>c \<in> set r. isspace c")
      case True
      then have dr: "dropWhile isspace (rev r) = []" by simp
      have "dropWhile isspace (rev w) = rev w" using w_ns by (simp add: dropWhile_none)
      then have "rev (dropWhile isspace (rev t)) = w"
        using True by (simp add: t_eq dropWhile_append)
      moreover have "split_ws r = []" using True by (simp add: split_ws_Nil)
      ultimately show ?thesis using strip_s split w_ns by (simp add: re_sub_runs_id)
    next
      case False
      then have r_ne: "r \<noteq> []" by auto
      then have "\<not> \<not> isspace (hd r)" unfolding r_def by (rule hd_dropWhile)
      with r_ne obtain c r' where r_eq: "r = c # r'" and c: "isspace c"
        by (cases r) auto
      have "strip s = w @ rev (dropWhile isspace (rev r))"
        using False by (auto simp: strip_s t_eq dropWhile_append)
      then have "re_sub_runs isspace (strip s)
          = w @ re_sub_runs isspace (rev (dropWhile isspace (rev (c # r'))))"
        using w_ns by (simp add: re_sub_runs_append_clean r_eq)
      also have "re_sub_runs isspace (rev (dropWhile isspace (rev (c # r'))))
          = CHR ''_'' # re_sub_runs isspace (rev (dropWhile isspace (rev (dropWhile isspace r'))))"
        using False c unfolding r_eq by (simp only: re_sub_runs_strip_end if_False if_True)
      also have "rev (dropWhile isspace (rev (dropWhile isspace r'))) = strip r"
        using c by (simp add: strip_def r_eq strip_by_Cons) (simp add: strip_by_def)
      finally have lhs: "re_sub_runs isspace (strip s)
          = w @ CHR ''_'' # join_underscore (split_ws r)"
        using IH by simp
      have "dropWhile isspace r \<noteq> []" using False by simp
      then have "split_ws r \<noteq> []" by (simp add: split_ws_Cons)
      then show ?thesis using lhs split by (simp add: join_underscore_Cons)
    qed
  qed
qed


lemma filter_eq_dropWhile:
  "\<not> p q \<Longrightarrow> filter ((=) q) (dropWhile p s) = filter ((=) q) s"
  by (induction s) auto

lemma filter_eq_strip_by:
  assumes "\<not> p q"
  shows "filter ((=) q) (strip_by p s) = filter ((=) q) s"
proof -
  have "filter ((=) q) (strip_by p s) = rev (filter ((=) q) (dropWhile p (rev (dropWhile p s))))"
    by (simp add: strip_by_def rev_filter)
  also have "\<dots> = rev (filter ((=) q) (rev (dropWhile p s)))"
    using assms by (simp add: filter_eq_dropWhile)
  also have "\<dots> = filter ((=) q) s"
    using assms by (simp add: rev_filter filter_eq_dropWhile)
  finally show ?thesis .
qed

lemma filter_eq_re_sub_runs:
  "\<not> p q \<Longrightarrow> q \<noteq> CHR ''_'' \<Longrightarrow> filter ((=) q) (re_sub_runs p s) = filter ((=) q) s"
  by (induction p s rule: re_sub_runs.induct) (auto simp: filter_eq_dropWhile)

lemma filter_eq_lower:
  assumes "\<And>c. lower_char c = q \<longleftrightarrow> c = q"
  shows "filter ((=) q) (lower s) = filter ((=) q) s"
proof -
  have gen: "(\<And>c. P (f c) = P c) \<Longrightarrow> (\<And>c. P c \<Longrightarrow> f c = c)
      \<Longrightarrow> filter P (map f xs) = filter P xs" for P f and xs :: string
    by (induction xs) auto
  show ?thesis
    unfolding lower_def by (rule gen) (use assms in metis)+
qed

lemma lower_char_eq_hyphen: "lower_char c = CHR ''-'' \<longleftrightarrow> c = CHR ''-''"
proof -
  have "lower_char c = CHR ''-'' \<longleftrightarrow> (of_char (lower_char c) :: nat) = of_char CHR ''-''"
    by (metis char_of_char)
  also have "\<dots> \<longleftrightarrow> (of_char c :: nat) = of_char CHR ''-''"
    unfolding of_char_lower_char by (auto simp: isupper_def Let_def)
  also have "\<dots> \<longleftrightarrow> c = CHR ''-''" by (metis char_of_char)
  finally show ?thesis .
qed

lemma clean_column_name_split:
  "clean_column_name s = lower (join_underscore (split_ws (remove_char quote_char s)))"
  by (simp add: clean_column_name_def re_sub_runs_strip_split)

lemma clean_column_name_hyphens:
  "filter ((=) CHR ''-'') (clean_column_name s) = filter ((=) CHR ''-'') s"
proof -
  have "filter ((=) CHR ''-'') (clean_column_name s)
      = filter ((=) CHR ''-'') (re_sub_runs isspace (strip (remove_char quote_char s)))"
    unfolding clean_column_name_def using lower_char_eq_hyphen by (rule filter_eq_lower)
  also have "\<dots> = filter ((=) CHR ''-'') (strip (remove_char quote_char s))"
    by (rule filter_eq_re_sub_runs) (simp_all add: isspace_def)
  also have "\<dots> = filter ((=) CHR ''-'') (remove_char quote_char s)"
    unfolding strip_def by (rule filter_eq_strip_by) (simp add: isspace_def)
  also have "\<dots> = filter ((=) CHR ''-'') s"
    by (induction s) (auto simp: remove_char_def quote_char_def)
  finally show ?thesis .
qed

lemma standardize_header_quotes:
  "filter ((=) quote_char) (standardize_header s) = filter ((=) quote_char) s"
proof -
  have nq: "\<not> isspace quote_char" "\<not> space_or_hyphen quote_char" "quote_char \<noteq> CHR ''_''"
    by (simp_all add: isspace_def space_or_hyphen_def quote_char_def)
  have "filter ((=) quote_char) (standardize_header s)
      = filter ((=) quote_char) (lower (strip s))"
    unfolding standardize_header_def using nq(2,3) by (rule filter_eq_re_sub_runs)
  also have "\<dots> = filter ((=) quote_char) (strip s)"
    using lower_char_eq_quote by (rule filter_eq_lower)
  also have "\<dots> = filter ((=) quote_char) s"
    unfolding strip_def using nq(1) by (rule filter_eq_strip_by)
  finally show ?thesis .
qed

lemma standardize_header_chars:
  assumes "c \<in> set (standardize_header s)"
  shows "\<not> isspace c \<and> c \<noteq> CHR ''-'' \<and> lower_char c = c"
proof -
  from assms set_re_sub_runs[of space_or_hyphen "lower (strip s)"]
  have "c = CHR ''_'' \<or> (c \<in> set (lower (strip s)) \<and> \<not> space_or_hyphen c)"
    by (auto simp: standardize_header_def)
  moreover have "\<not> isspace CHR ''_''" "lower_char CHR ''_'' = CHR ''_''"
    by (simp_all add: isspace_def lower_char_def isupper_def)
  moreover have "d \<in> set (lower (strip s)) \<Longrightarrow> lower_char d = d" for d
    by (auto simp: lower_def lower_char_idem)
  ultimately show ?thesis
    by (auto simp: space_or_hyphen_def)
qed

lemma split_runs_nonempty: "split_runs p s \<noteq> []"
  by (subst split_runs.simps) (simp add: Let_def)

lemma re_sub_runs_split:
  "re_sub_runs p s = join_underscore (split_runs p s)"
proof (induction p s rule: split_runs.induct)
  case (1 p s)
  define w where "w = takeWhile (\<lambda>c. \<not> p c) s"
  define r where "r = dropWhile (\<lambda>c. \<not> p c) s"
  have s: "s = w @ r" by (simp add: w_def r_def)
  have w: "\<forall>c \<in> set w. \<not> p c" by (auto simp: w_def dest: set_takeWhileD)
  have pre: "re_sub_runs p s = w @ re_sub_runs p r"
    unfolding s using w by (rule re_sub_runs_append_clean)
  show ?case
  proof (cases "r = []")
    case True
    then have "split_runs p s = [w]"
      by (subst split_runs.simps) (simp add: Let_def w_def r_def)
    with pre True show ?thesis by simp
  next
    case False
    then have "\<not> \<not> p (hd r)" unfolding r_def by (rule hd_dropWhile)
    with False obtain c r' where r': "r = c # r'" and c: "p c" by (cases r) auto
    have IH: "re_sub_runs p (dropWhile p r) = join_underscore (split_runs p (dropWhile p r))"
      using "1"[OF w_def r_def False] .
    have sp: "split_runs p s = w # split_runs p (dropWhile p r)"
      using False unfolding w_def r_def
      by (subst split_runs.simps[of p s]) (simp only: Let_def if_False)
    have "re_sub_runs p r = CHR ''_'' # re_sub_runs p (dropWhile p r)"
      using c by (simp add: r')
    then have "re_sub_runs p s = w @ CHR ''_'' # join_underscore (split_runs p (dropWhile p r))"
      using pre IH by simp
    also have "\<dots> = join_underscore (w # split_runs p (dropWhile p r))"
      using split_runs_nonempty[of p "dropWhile p r"]
      by (cases "split_runs p (dropWhile p r)") (simp_all add: join_underscore_Cons)
    finally show ?thesis unfolding sp .
  qed
qed

lemma split_runs_fields:
  "\<forall>w \<in> set (split_runs p s). \<forall>c \<in> set w. \<not> p c"
proof (induction p s rule: split_runs.induct)
  case (1 p s)
  define w where "w = takeWhile (\<lambda>c. \<not> p c) s"
  define r where "r = dropWhile (\<lambda>c. \<not> p c) s"
  have w: "\<forall>c \<in> set w. \<not> p c" by (auto simp: w_def dest: set_takeWhileD)
  show ?case
  proof (cases "r = []")
    case True
    then have "split_runs p s = [w]"
      by (subst split_runs.simps) (simp add: Let_def w_def r_def)
    with w show ?thesis by simp
  next
    case False
    have IH: "\<forall>w \<in> set (split_runs p (dropWhile p r)). \<forall>c \<in> set w. \<not> p c"
      using "1"[OF w_def r_def False] .
    have sp: "split_runs p s = w # split_runs p (dropWhile p r)"
      using False unfolding w_def r_def
      by (subst split_runs.simps[of p s]) (simp only: Let_def if_False)
    show ?thesis unfolding sp using w IH by simp
  qed
qed

lemma standardize_header_split:
  "standardize_header s = join_underscore (split_runs space_or_hyphen (lower (strip s)))"
  by (simp add: standardize_header_def re_sub_runs_split)

text \<open>
  Claim C6, as the code has it. The claim's single normalizer is two functions in the code.
  \<open>clean_column_name\<close> deletes the quote characters, trims, replaces every maximal run of
  whitespace by one underscore and lowercases: its result is the lowercased
  \<open>'_'.join(name.replace('"', '').split())\<close>, free of whitespace, quotes and capitals. It
  leaves every hyphen in place, so \<open>" Peak-No. Of Players "\<close> becomes \<open>peak-no._of_players\<close>.
  The header cleaning of \<open>_load_and_standardize_game_data\<close> trims, lowercases and replaces
  every maximal run of whitespace or hyphens by one underscore: its result is the fields of
  the trimmed, lowercased name between the maximal runs of whitespace or hyphens
  (\<open>re.split(r'[\s\-]+', ...)\<close>), joined by single underscores, so that \<open>"a - b"\<close> becomes
  \<open>a_b\<close>; it is free of whitespace, hyphens and capitals, and \<open>" Peak-No. Of Players "\<close>
  becomes \<open>peak_no._of_players\<close>. It keeps every quote character.
\<close>

theorem column_normalizers_contract:
  "clean_column_name s = lower (join_underscore (split_ws (remove_char quote_char s))) \<and>
   (\<forall>c \<in> set (clean_column_name s). \<not> isspace c \<and> c \<noteq> quote_char \<and> lower_char c = c) \<and>
   filter ((=) CHR ''-'') (clean_column_name s) = filter ((=) CHR ''-'') s \<and>
   clean_column_name '' Peak-No. Of Players '' = ''peak-no._of_players'' \<and>
   (\<forall>c \<in> set (standardize_header s). \<not> isspace c \<and> c \<noteq> CHR ''-'' \<and> lower_char c = c) \<and>
   filter ((=) quote_char) (standardize_header s) = filter ((=) quote_char) s \<and>
   standardize_header '' Peak-No. Of Players '' = ''peak_no._of_players'' \<and>
   standardize_header s = join_underscore (split_runs space_or_hyphen (lower (strip s))) \<and>
   (\<forall>w \<in> set (split_runs space_or_hyphen (lower (strip s))).
      \<forall>c \<in> set w. \<not> space_or_hyphen c) \<and>
   standardize_header ''a - b'' = ''a_b''"
proof -
  have 1: "clean_column_name '' Peak-No. Of Players '' = ''peak-no._of_players''"
    by code_simp
  have 2: "standardize_header '' Peak-No. Of Players '' = ''peak_no._of_players''"
    by code_simp
  have 3: "standardize_header ''a - b'' = ''a_b''"
    by code_simp
  have 4: "\<forall>c \<in> set (clean_column_name s).
      \<not> isspace c \<and> c \<noteq> quote_char \<and> lower_char c = c"
    using clean_column_name_chars[of _ s] by blast
  have 5: "\<forall>c \<in> set (standardize_header s).
      \<not> isspace c \<and> c \<noteq> CHR ''-'' \<and> lower_char c = c"
    using standardize_header_chars[of _ s] by blast
  show ?thesis
    by (intro conjI) (rule clean_column_name_split 4 clean_column_name_hyphens 1 5
      standardize_header_quotes 2 standardize_header_split split_runs_fields 3)+
qed

theorem column_normalizers_contract_witness:
  "clean_column_name ''Peak-No  Of'' = ''peak-no_of'' \<and>
   lower (join_underscore (split_ws (remove_char quote_char ''Peak-No  Of''))) = ''peak-no_of'' \<and>
   filter ((=) CHR ''-'') (clean_column_name ''Peak-No  Of'') = ''-'' \<and>
   standardize_header ''Peak-No  Of'' = ''peak_no_of'' \<and>
   filter ((=) quote_char) (standardize_header ''Peak-No  Of'') = [] \<and>
   join_underscore (split_runs space_or_hyphen (lower (strip ''Peak-No  Of''))) = ''peak_no_of'' \<and>
   split_runs space_or_hyphen (lower (strip ''Peak-No  Of'')) = [''peak'', ''no'', ''of'']"
proof -
  have 1: "clean_column_name ''Peak-No  Of'' = ''peak-no_of''" by code_simp
  have 2: "standardize_header ''Peak-No  Of'' = ''peak_no_of''" by code_simp
  have 3: "filter ((=) CHR ''-'') ''Peak-No  Of'' = ''-''" by code_simp
  have 4: "filter ((=) quote_char) ''Peak-No  Of'' = []" by code_simp
  note T = column_normalizers_contract[of "''Peak-No  Of''"]
  from T have a: "clean_column_name ''Peak-No  Of''
      = lower (join_underscore (split_ws (remove_char quote_char ''Peak-No  Of'')))"
    by (rule conjunct1)
  from T have b: "filter ((=) CHR ''-'') (clean_column_name ''Peak-No  Of'')
      = filter ((=) CHR ''-'') ''Peak-No  Of''"
    by blast
  from T have c: "filter ((=) quote_char) (standardize_header ''Peak-No  Of'')
      = filter ((=) quote_char) ''Peak-No  Of''"
    by blast
  from T have d: "standardize_header ''Peak-No  Of''
      = join_underscore (split_runs space_or_hyphen (lower (strip ''Peak-No  Of'')))"
    by blast
  have 5: "split_runs space_or_hyphen (lower (strip ''Peak-No  Of'')) = [''peak'', ''no'', ''of'']"
    by code_simp
  have e: "join_underscore (split_runs space_or_hyphen (lower (strip ''Peak-No  Of'')))
      = ''peak_no_of''"
    using d by (simp only: 2)
  show ?thesis
    using a b c e 5 by (simp only: 1 2 3 4)
qed

text \<open>
  The claim's example fails for \<open>clean_column_name\<close>, which keeps the hyphen, and the claim's
  quote stripping fails for the header cleaning of \<open>_load_and_standardize_game_data\<close>.
\<close>

theorem column_normalizer_counterexample:
  "clean_column_name '' Peak-No. Of Players '' \<noteq> ''peak_no._of_players'' \<and>
   quote_char \<in> set (standardize_header [quote_char, CHR ''a'', quote_char])"
  by code_simp

text \<open>
  Claim C9. Column Normalizer idempotence: for every string \<open>s\<close>, normalizing the result of
  normalization gives the same value as normalizing once, for \<open>clean_column_name\<close> of
  \<open>src/utils.py\<close> and for its copy \<open>clean_column\<close> of \<open>src/simple_etl.py\<close>.
\<close>

theorem clean_column_name_idempotent:
  "clean_column_name (clean_column_name s) = clean_column_name s \<and>
   clean_column (clean_column s) = clean_column s"
proof -
  have "clean_column_name (clean_column_name s) = clean_column_name s"
    by (rule clean_column_name_fixed) (use clean_column_name_chars in blast)
  then show ?thesis by (simp add: clean_column_eq)
qed

theorem clean_column_name_idempotent_witness:
  "clean_column_name (clean_column_name '' Peak No. of  Players '') = ''peak_no._of_players'' \<and>
   clean_column_name '' Peak No. of  Players '' = ''peak_no._of_players''"
proof -
  have e: "clean_column_name '' Peak No. of  Players '' = ''peak_no._of_players''"
    by code_simp
  from clean_column_name_idempotent[of "'' Peak No. of  Players ''"] e show ?thesis
    by simp
qed

section \<open>Properties of the numeric cleaners\<close>


lemma py_int_error: "py_int L s = Inl e \<Longrightarrow> e = ValueError"
  by (auto simp: py_int_def Let_def split: if_splits)

lemma clean_numeric_string_str:
  "clean_numeric_string L pf (PyStr s) =
     Inr (let c = remove_char CHR '','' (remove_char quote_char s)
          in if CHR ''.'' \<in> set c
             then (case pf c of Some x \<Rightarrow> PyFloat x | None \<Rightarrow> PyNA)
             else (case py_int L c of Inr n \<Rightarrow> PyInt n | Inl e \<Rightarrow> PyNA))"
  by (auto simp: clean_numeric_string_def Let_def split: option.splits sum.splits py_error.splits
      dest: py_int_error)

lemma clean_numeric_string_total: "\<exists>r. clean_numeric_string L pf v = Inr r"
  by (cases v) (simp_all add: clean_numeric_string_str, simp_all add: clean_numeric_string_def)

lemma py_int_zero: "py_int L ''0'' = Inr 0"
  by (auto simp: py_int_def strip_by_def int_space_def is_digit_def digits_value_def digit_val_def Let_def)

lemma clean_digits_cell_no_digit:
  "filter is_digit s = [] \<Longrightarrow> clean_digits_cell L s = Inr 0"
  by (simp add: clean_digits_cell_def py_int_zero)

lemma apply_cleaner_total:
  "(\<And>v. \<exists>r. f v = Inr r) \<Longrightarrow> apply_cleaner f vs = Inr (map (\<lambda>v. projr (f v)) vs)"
proof (induction vs)
  case Nil
  then show ?case by simp
next
  case (Cons v vs)
  from Cons.prems obtain r where "f v = Inr r" by blast
  with Cons show ?case by simp
qed

lemma clean_numeric_columns_dropna:
  "\<exists>out. clean_numeric_columns L pf df = Inr out \<and>
      (\<forall>r \<in> set out. \<not> isna (raw_peak_players r) \<and> \<not> isna (raw_hours_played r))"
  by (simp add: clean_numeric_columns_def apply_cleaner_total[OF clean_numeric_string_total])

lemma clean_numeric_string_abc: "clean_numeric_string L pf (PyStr ''abc'') = Inr PyNA"
  by (simp add: clean_numeric_string_str remove_char_def quote_char_def py_int_def strip_by_def
      int_space_def is_digit_def Let_def)

text \<open>
  Claim C5, as the code has it. \<open>clean_numeric_string\<close> returns an \<open>int\<close> or a \<open>float\<close>
  unchanged; from a string it deletes the quote characters and the commas and parses the rest
  with \<open>float\<close> when it contains a decimal point and with \<open>int\<close> otherwise; when the parse
  fails (as for \<open>"abc"\<close>), and for a value of any other type, it returns the missing sentinel
  \<open>pd.NA\<close>; it never raises. In \<open>load_daily_data\<close> every row whose peak or hours cell is
  missing after the cleaning is dropped. The column cleaner \<open>_clean_numeric_column\<close> of the
  population-weighted path is a different function: it deletes every character that is not
  a digit, and a cell without a digit becomes the number 0.
\<close>

theorem numeric_cleaner_contract:
  "clean_numeric_string L pf (PyInt n) = Inr (PyInt n) \<and>
   clean_numeric_string L pf (PyFloat x) = Inr (PyFloat x) \<and>
   clean_numeric_string L pf (PyStr s) =
     Inr (let c = remove_char CHR '','' (remove_char quote_char s)
          in if CHR ''.'' \<in> set c
             then (case pf c of Some x \<Rightarrow> PyFloat x | None \<Rightarrow> PyNA)
             else (case py_int L c of Inr n \<Rightarrow> PyInt n | Inl e \<Rightarrow> PyNA)) \<and>
   clean_numeric_string L pf PyNA = Inr PyNA \<and>
   clean_numeric_string L pf PyObj = Inr PyNA \<and>
   (\<exists>r. clean_numeric_string L pf v = Inr r) \<and>
   clean_numeric_string L pf (PyStr ''abc'') = Inr PyNA \<and>
   (\<exists>out. clean_numeric_columns L pf df = Inr out \<and>
      (\<forall>r \<in> set out. \<not> isna (raw_peak_players r) \<and> \<not> isna (raw_hours_played r))) \<and>
   (filter is_digit t = [] \<longrightarrow> clean_digits_cell L t = Inr 0)"
proof -
  have "clean_numeric_string L pf (PyInt n) = Inr (PyInt n)"
    and "clean_numeric_string L pf (PyFloat x) = Inr (PyFloat x)"
    and "clean_numeric_string L pf PyNA = Inr PyNA"
    and "clean_numeric_string L pf PyObj = Inr PyNA"
    by (simp_all add: clean_numeric_string_def)
  then show ?thesis
    using clean_numeric_string_str[of L pf s] clean_numeric_string_total[of L pf v]
      clean_numeric_string_abc[of L pf] clean_numeric_columns_dropna[of L pf df]
      clean_digits_cell_no_digit[of t L]
    by blast
qed

theorem numeric_cleaner_contract_witness:
  "clean_numeric_string 4300 example_float (PyStr ''12.50'') = Inr (PyFloat (Finite (25 / 2))) \<and>
   clean_numeric_string 4300 example_float (PyStr ''1,234'') = Inr (PyInt 1234) \<and>
   clean_numeric_columns 4300 example_float example_raw_rows =
     Inr [\<lparr>raw_name = ''h'', raw_peak_players = PyInt 1234, raw_hours_played = PyInt 3, raw_date = 0\<rparr>] \<and>
   filter is_digit ''abc'' = [] \<and>
   clean_digits_cell 4300 ''abc'' = Inr 0"
proof -
  note T = numeric_cleaner_contract[of 4300 example_float _ _ _ _ example_raw_rows "''abc''"]
  have d: "filter is_digit ''abc'' = []" by code_simp
  from T d have z: "clean_digits_cell 4300 ''abc'' = Inr 0" by blast
  have 1: "clean_numeric_string 4300 example_float (PyStr ''12.50'') = Inr (PyFloat (Finite (25 / 2)))"
    by code_simp
  have 2: "clean_numeric_string 4300 example_float (PyStr ''1,234'') = Inr (PyInt 1234)"
    by code_simp
  have 3: "clean_numeric_columns 4300 example_float example_raw_rows =
     Inr [\<lparr>raw_name = ''h'', raw_peak_players = PyInt 1234, raw_hours_played = PyInt 3, raw_date = 0\<rparr>]"
    by code_simp
  from 1 2 3 d z show ?thesis by blast
qed

text \<open>
  The claim's "never zero" fails for \<open>_clean_numeric_column\<close>: the cell \<open>"abc"\<close> becomes 0
  (and \<open>"12.5"\<close> becomes 125).
\<close>

theorem numeric_cleaner_counterexample:
  "clean_numeric_column 4300 [''abc'', ''12.5''] = Inr [0, 125]"
  by code_simp

section \<open>Properties of the game weights\<close>

lemma dense_rank_card: "dense_rank ms m = card {x \<in> set ms. x \<le> m}"
  by (simp add: dense_rank_def length_remdups_card_conv)

lemma dense_rank_mono: "m \<le> m' \<Longrightarrow> dense_rank ms m \<le> dense_rank ms m'"
  unfolding dense_rank_card by (rule card_mono) auto

lemma dense_rank_strict:
  assumes "m < m'" "m' \<in> set ms"
  shows "dense_rank ms m < dense_rank ms m'"
  unfolding dense_rank_card
proof (rule psubset_card_mono)
  show "finite {x \<in> set ms. x \<le> m'}" by simp
  have "m' \<in> {x \<in> set ms. x \<le> m'}" "m' \<notin> {x \<in> set ms. x \<le> m}"
    using assms by auto
  moreover have "{x \<in> set ms. x \<le> m} \<subseteq> {x \<in> set ms. x \<le> m'}"
    using assms by auto
  ultimately show "{x \<in> set ms. x \<le> m} \<subset> {x \<in> set ms. x \<le> m'}" by blast
qed

lemma dense_rank_le_iff:
  assumes "m \<in> set ms" "m' \<in> set ms"
  shows "dense_rank ms m \<le> dense_rank ms m' \<longleftrightarrow> m \<le> m'"
  using assms dense_rank_mono[of m m' ms] dense_rank_strict[of m' m ms]
  by (metis leD leI)

lemma dense_rank_bounds:
  assumes "m \<in> set ms"
  shows "1 \<le> dense_rank ms m \<and> dense_rank ms m \<le> card (set ms)"
proof -
  have "{x \<in> set ms. x \<le> m} \<noteq> {}" using assms by auto
  then have "0 < card {x \<in> set ms. x \<le> m}" by (simp add: card_gt_0_iff)
  moreover have "card {x \<in> set ms. x \<le> m} \<le> card (set ms)"
    by (rule card_mono) auto
  ultimately show ?thesis unfolding dense_rank_card by linarith
qed

lemma dense_rank_image: "dense_rank ms ` set ms = {1..card (set ms)}"
proof (rule card_subset_eq)
  show "finite {1..card (set ms)}" by simp
  show "dense_rank ms ` set ms \<subseteq> {1..card (set ms)}"
    using dense_rank_bounds by auto
  have "inj_on (dense_rank ms) (set ms)"
    by (rule inj_onI) (metis dense_rank_le_iff order_antisym order_refl)
  then show "card (dense_rank ms ` set ms) = card {1..card (set ms)}"
    by (simp add: card_image)
qed

lemma set_group_names: "set (group_names game_df) = fst ` set game_df"
  by (simp add: group_names_def)

lemma distinct_group_names: "distinct (group_names game_df)"
  by (simp add: group_names_def)

lemma sorted_group_names: "sorted (group_names game_df)"
  by (simp add: group_names_def)

lemma calculate_game_weights_nonempty:
  "calculate_game_weights all_games_data =
     map (\<lambda>g. (g, of_nat (dense_rank (map (group_mean (concat all_games_data))
                                        (group_names (concat all_games_data)))
                             (group_mean (concat all_games_data) g))))
       (group_names (concat all_games_data))"
  by (cases "all_games_data = []") (simp_all add: calculate_game_weights_def Let_def group_names_def)

lemma map_fst_weights:
  "map fst (calculate_game_weights all_games_data) = group_names (concat all_games_data)"
  by (simp add: calculate_game_weights_nonempty comp_def)

lemma map_of_weights:
  assumes "map_of (calculate_game_weights all_games_data) g = Some w"
  shows "g \<in> fst ` set (concat all_games_data) \<and>
         w = of_nat (dense_rank (map (group_mean (concat all_games_data))
                                   (group_names (concat all_games_data)))
                        (group_mean (concat all_games_data) g))"
proof -
  from assms have "(g, w) \<in> set (calculate_game_weights all_games_data)" by (rule map_of_SomeD)
  then show ?thesis
    unfolding calculate_game_weights_nonempty[of all_games_data]
    by (auto simp: set_group_names)
qed


lemma set_means:
  "set (map (group_mean game_df) (group_names game_df)) = group_mean game_df ` fst ` set game_df"
  by (simp add: set_group_names)

lemma snd_weights_image:
  "snd ` set (calculate_game_weights all_games_data) =
     of_nat ` {1..card (group_mean (concat all_games_data) ` fst ` set (concat all_games_data))}"
proof -
  define df where "df = concat all_games_data"
  define ms where "ms = map (group_mean df) (group_names df)"
  have "snd ` set (calculate_game_weights all_games_data)
      = (\<lambda>g. of_nat (dense_rank ms (group_mean df g))) ` set (group_names df)"
    unfolding calculate_game_weights_nonempty[of all_games_data] df_def ms_def
    by (simp add: image_image)
  also have "\<dots> = of_nat ` dense_rank ms ` set ms"
    by (simp add: ms_def image_image)
  also have "\<dots> = of_nat ` {1..card (set ms)}"
    by (simp only: dense_rank_image)
  finally show ?thesis
    by (simp only: ms_def set_means df_def)
qed

lemma group_mean_arithmetic:
  "group_mean df g = of_int (sum_list (map snd (filter (\<lambda>r. fst r = g) df)))
                       / of_nat (length (filter (\<lambda>r. fst r = g) df))"
  by (simp add: group_mean_def Let_def)

lemma game_weights_order:
  assumes df: "df = concat all_games_data"
    and W: "W = calculate_game_weights all_games_data"
    and mean: "mean = (\<lambda>g. of_int (sum_list (map snd (filter (\<lambda>r. fst r = g) df)))
                           / of_nat (length (filter (\<lambda>r. fst r = g) df)) :: rat)"
    and k: "k = card (mean ` fst ` set df)"
  shows "distinct (map fst W) \<and> sorted (map fst W) \<and>
       set (map fst W) = fst ` set df \<and>
       snd ` set W = of_nat ` {1..k} \<and>
       (\<forall>g h wg wh. map_of W g = Some wg \<and> map_of W h = Some wh \<longrightarrow>
          (wg \<le> wh \<longleftrightarrow> mean g \<le> mean h) \<and> (wg = wh \<longleftrightarrow> mean g = mean h)) \<and>
       (\<forall>g wg. map_of W g = Some wg \<and>
          (\<forall>h \<in> fst ` set df. h \<noteq> g \<longrightarrow> mean h < mean g) \<longrightarrow>
          wg = of_nat k \<and> (\<forall>h wh. map_of W h = Some wh \<and> h \<noteq> g \<longrightarrow> wh < wg))"
proof -
  have gm: "group_mean df = mean"
    unfolding mean by (rule ext) (rule group_mean_arithmetic)
  define ms where "ms = map mean (group_names df)"
  have keys: "map fst W = group_names df"
    by (simp add: W df map_fst_weights)
  have img: "snd ` set W = of_nat ` {1..k}"
    unfolding W k df gm[unfolded df, symmetric] by (rule snd_weights_image)
  have look: "g \<in> fst ` set df \<and> w = of_nat (dense_rank ms (mean g))"
    if "map_of W g = Some w" for g w
    using map_of_weights[of all_games_data g w] that
    by (simp add: W df[symmetric] ms_def gm)
  have mem: "mean g \<in> set ms" if "g \<in> fst ` set df" for g
    using that by (auto simp: ms_def set_group_names)
  have le: "(wg \<le> wh \<longleftrightarrow> mean g \<le> mean h) \<and> (wg = wh \<longleftrightarrow> mean g = mean h)"
    if g: "map_of W g = Some wg" and h: "map_of W h = Some wh" for g h wg wh
  proof -
    from look[OF g] look[OF h] have
      wg: "wg = of_nat (dense_rank ms (mean g))" and
      wh: "wh = of_nat (dense_rank ms (mean h))" and
      mg: "mean g \<in> set ms" and mh: "mean h \<in> set ms"
      using mem by auto
    have 1: "wg \<le> wh \<longleftrightarrow> mean g \<le> mean h"
      by (simp add: wg wh dense_rank_le_iff[OF mg mh])
    have 2: "wh \<le> wg \<longleftrightarrow> mean h \<le> mean g"
      by (simp add: wg wh dense_rank_le_iff[OF mh mg])
    from 1 2 show ?thesis by (metis order_antisym order_refl)
  qed
  have top: "wg = of_nat k \<and> (\<forall>h wh. map_of W h = Some wh \<and> h \<noteq> g \<longrightarrow> wh < wg)"
    if g: "map_of W g = Some wg"
      and big: "\<forall>h \<in> fst ` set df. h \<noteq> g \<longrightarrow> mean h < mean g" for g wg
  proof -
    have less: "wh < wg" if h: "map_of W h = Some wh" and ne: "h \<noteq> g" for h wh
    proof -
      from look[OF h] ne big have "mean h < mean g" by blast
      with le[OF g h] show ?thesis by (metis leD leI)
    qed
    have all_le: "w \<le> wg" if "w \<in> snd ` set W" for w
    proof -
      from that obtain h where hw: "(h, w) \<in> set W" by force
      have "distinct (map fst W)" by (simp add: keys distinct_group_names)
      with hw have "map_of W h = Some w" by simp
      then show ?thesis using less[of h w] g by (cases "h = g") auto
    qed
    from g have "wg \<in> snd ` set W" by (metis map_of_SomeD image_eqI snd_conv)
    then obtain j where j: "wg = of_nat j" "1 \<le> j" "j \<le> k" using img by auto
    then have "k \<in> {1..k}" by simp
    then have "(of_nat k :: rat) \<in> snd ` set W" using img by blast
    from all_le[OF this] j have "wg = of_nat k" by simp
    with less show ?thesis by blast
  qed
  have "distinct (map fst W)" "sorted (map fst W)" "set (map fst W) = fst ` set df"
    by (simp_all add: keys distinct_group_names sorted_group_names set_group_names)
  moreover have "\<forall>g h wg wh. map_of W g = Some wg \<and> map_of W h = Some wh \<longrightarrow>
          (wg \<le> wh \<longleftrightarrow> mean g \<le> mean h) \<and> (wg = wh \<longleftrightarrow> mean g = mean h)"
    using le by (intro allI impI) (elim conjE)
  moreover have "\<forall>g wg. map_of W g = Some wg \<and>
          (\<forall>h \<in> fst ` set df. h \<noteq> g \<longrightarrow> mean h < mean g) \<longrightarrow>
          wg = of_nat k \<and> (\<forall>h wh. map_of W h = Some wh \<and> h \<noteq> g \<longrightarrow> wh < wg)"
    using top by (intro allI impI) (elim conjE)
  ultimately show ?thesis
    using img by (intro conjI)
qed

text \<open>
  Claim C7. The game weight estimator groups the rows by game name, takes the arithmetic mean
  of \<open>peak_players\<close> of each game (the sum of the game's \<open>peak_players\<close> over the number of its
  rows, written out below as \<open>mean\<close>) and gives each game the dense rank of its mean,
  ascending: every distinct name is a key of the result (once, in sorted order); the weights
  are exactly the numbers 1 to \<open>k\<close>, for \<open>k\<close> distinct means; weights are ordered as the means
  are, so that two games have the same weight exactly when their means are equal; a game
  whose mean is strictly greater than every other game's has the highest weight \<open>k\<close>,
  strictly above all others; and the empty input gives the empty mapping. The means are
  computed exactly.
\<close>

theorem game_weights_dense_rank:
  "calculate_game_weights [] = [] \<and>
   (let game_df = concat all_games_data;
        W = calculate_game_weights all_games_data;
        mean = (\<lambda>g. of_int (sum_list (map snd (filter (\<lambda>r. fst r = g) game_df)))
                       / of_nat (length (filter (\<lambda>r. fst r = g) game_df)) :: rat);
        k = card (mean ` fst ` set game_df)
    in distinct (map fst W) \<and> sorted (map fst W) \<and>
       set (map fst W) = fst ` set game_df \<and>
       snd ` set W = of_nat ` {1..k} \<and>
       (\<forall>g h wg wh. map_of W g = Some wg \<and> map_of W h = Some wh \<longrightarrow>
          (wg \<le> wh \<longleftrightarrow> mean g \<le> mean h) \<and> (wg = wh \<longleftrightarrow> mean g = mean h)) \<and>
       (\<forall>g wg. map_of W g = Some wg \<and>
          (\<forall>h \<in> fst ` set game_df. h \<noteq> g \<longrightarrow> mean h < mean g) \<longrightarrow>
          wg = of_nat k \<and> (\<forall>h wh. map_of W h = Some wh \<and> h \<noteq> g \<longrightarrow> wh < wg)))"
proof -
  have "calculate_game_weights [] = []" by (simp add: calculate_game_weights_def)
  then show ?thesis
    unfolding Let_def
    by (rule conjI) (rule game_weights_order[OF refl refl refl refl])
qed

text \<open>
  A frame on which the order of the means and the order of the sums differ: the game \<open>b\<close> has
  the rows 10 and 20 (mean 15, sum 30), the game \<open>c\<close> the row 16, the games \<open>a\<close> and \<open>d\<close> the
  row 5. The weights follow the means: \<open>b\<close> is ranked below \<open>c\<close>.
\<close>

theorem game_weights_dense_rank_witness:
  "calculate_game_weights example_games = [(''a'', 1), (''b'', 2), (''c'', 3), (''d'', 1)] \<and>
   (of_int (sum_list (map snd (filter (\<lambda>r. fst r = ''b'') (concat example_games))))
      / of_nat (length (filter (\<lambda>r. fst r = ''b'') (concat example_games))) :: rat)
    \<le> of_int (sum_list (map snd (filter (\<lambda>r. fst r = ''c'') (concat example_games))))
      / of_nat (length (filter (\<lambda>r. fst r = ''c'') (concat example_games))) \<and>
   (of_int (sum_list (map snd (filter (\<lambda>r. fst r = ''b'') (concat example_games))))
      / of_nat (length (filter (\<lambda>r. fst r = ''b'') (concat example_games))) :: rat) = 15 \<and>
   sum_list (map snd (filter (\<lambda>r. fst r = ''c'') (concat example_games)))
    < sum_list (map snd (filter (\<lambda>r. fst r = ''b'') (concat example_games)))"
proof -
  define W where "W = calculate_game_weights example_games"
  define mb :: rat where
    "mb = of_int (sum_list (map snd (filter (\<lambda>r. fst r = ''b'') (concat example_games))))
      / of_nat (length (filter (\<lambda>r. fst r = ''b'') (concat example_games)))"
  define mc :: rat where
    "mc = of_int (sum_list (map snd (filter (\<lambda>r. fst r = ''c'') (concat example_games))))
      / of_nat (length (filter (\<lambda>r. fst r = ''c'') (concat example_games)))"
  have W: "W = [(''a'', 1), (''b'', 2), (''c'', 3), (''d'', 1)]"
    unfolding W_def by code_simp
  have b: "map_of W ''b'' = Some 2" and c: "map_of W ''c'' = Some 3"
    by (simp_all add: W)
  note T = game_weights_dense_rank[of example_games, unfolded Let_def,
      folded W_def, folded mb_def mc_def]
  from T have "\<forall>g h wg wh. map_of W g = Some wg \<and> map_of W h = Some wh \<longrightarrow>
      (wg \<le> wh) =
        (of_int (sum_list (map snd (filter (\<lambda>r. fst r = g) (concat example_games))))
          / of_nat (length (filter (\<lambda>r. fst r = g) (concat example_games)))
         \<le> (of_int (sum_list (map snd (filter (\<lambda>r. fst r = h) (concat example_games))))
          / of_nat (length (filter (\<lambda>r. fst r = h) (concat example_games))) :: rat))"
    by blast
  from this[rule_format, of "''b''" 2 "''c''" 3, folded mb_def mc_def, OF conjI[OF b c]]
  have "((2::rat) \<le> 3) = (mb \<le> mc)" .
  then have 1: "mb \<le> mc" by simp
  have 2: "mb = 15" unfolding mb_def by code_simp
  have 3: "sum_list (map snd (filter (\<lambda>r. fst r = ''c'') (concat example_games)))
    < sum_list (map snd (filter (\<lambda>r. fst r = ''b'') (concat example_games)))"
    by code_simp
  from W 1 2 3 show ?thesis unfolding W_def mb_def mc_def by (intro conjI)
qed
section \<open>Properties of the synthesis from daily records\<close>

lemma of_char_digit_char: "d < 10 \<Longrightarrow> (of_char (digit_char d) :: nat) = 48 + d"
  by (simp add: digit_char_def)

lemma decimal_value_decimal: "decimal_value (decimal n) = n"
proof (induction n rule: decimal.induct)
  case (1 n)
  show ?case
  proof (cases "n < 10")
    case True
    then show ?thesis
      by (subst decimal.simps) (simp add: decimal_value_def of_char_digit_char)
  next
    case False
    then have "decimal_value (decimal (n div 10)) = n div 10" using 1 by simp
    then show ?thesis using False
      by (subst decimal.simps) (simp add: decimal_value_def of_char_digit_char)
  qed
qed

lemma inj_decimal: "inj decimal"
  by (rule inj_on_inverseI[where g = decimal_value]) (rule decimal_value_decimal)

lemma inj_user_label: "inj user_label"
  using inj_decimal by (auto simp: inj_def user_label_def)

lemma distinct_user_labels: "distinct (map user_label [a ..< b])"
  by (simp add: distinct_map inj_on_subset[OF inj_user_label])

lemma main_sessions_result:
  "main_sessions R cfg row k uc g = Inr (ss, uc', g') \<Longrightarrow>
     uc' = uc + k \<and> length ss = k \<and>
     map user_id ss = map user_label [uc + 1 ..< uc + k + 1] \<and>
     (\<forall>s \<in> set ss. game_id s = game_name row)"
proof (induction k arbitrary: uc g ss)
  case 0
  then show ?case by simp
next
  case (Suc k)
  have upt: "[uc + 1 ..< uc + Suc k + 1] = (uc + 1) # [uc + 1 + 1 ..< uc + 1 + k + 1]"
    by (simp add: upt_conv_Cons)
  from Suc.prems obtain s ss0 g4 where
    rec: "main_sessions R cfg row k (uc + 1) g4 = Inr (ss0, uc', g')" and
    ss: "ss = s # ss0" and
    s: "user_id s = user_label (uc + 1)" "game_id s = game_name row"
    by (auto simp: Let_def user_label_def split: if_splits prod.splits sum.splits)
  from Suc.IH[OF rec] show ?case
    unfolding upt ss using s by simp
qed

lemma pipeline_sessions_result:
  "pipeline_sessions R avg row k uc g = (ss, uc', g') \<Longrightarrow>
     uc' = uc + k \<and> length ss = k \<and>
     map user_id ss = map user_label [uc + 1 ..< uc + k + 1] \<and>
     (\<forall>s \<in> set ss. game_id s = game_name row \<and> duration s = avg)"
proof (induction k arbitrary: uc g ss)
  case 0
  then show ?case by simp
next
  case (Suc k)
  have upt: "[uc + 1 ..< uc + Suc k + 1] = (uc + 1) # [uc + 1 + 1 ..< uc + 1 + k + 1]"
    by (simp add: upt_conv_Cons)
  from Suc.prems obtain s ss0 g3 where
    rec: "pipeline_sessions R avg row k (uc + 1) g3 = (ss0, uc', g')" and
    ss: "ss = s # ss0" and
    s: "user_id s = user_label (uc + 1)" "game_id s = game_name row" "duration s = avg"
    by (auto simp: Let_def user_label_def split: prod.splits)
  from Suc.IH[OF rec] show ?case
    unfolding upt ss using s by simp
qed

lemma upt_join: "a \<le> b \<Longrightarrow> b \<le> c \<Longrightarrow> [a ..< b] @ [b ..< c] = [a ..< c]"
  by (metis le_Suc_ex upt_add_eq_append)

lemma main_rows_users:
  "main_rows R cfg rows uc g = Inr (ss, uc', g') \<Longrightarrow>
     uc \<le> uc' \<and> map user_id ss = map user_label [uc + 1 ..< uc' + 1]"
proof (induction rows arbitrary: uc g ss)
  case Nil
  then show ?case by simp
next
  case (Cons row rows)
  show ?case
  proof (cases "hours_played row")
    case None
    with Cons.prems show ?thesis by simp
  next
    case (Some h)
    show ?thesis
    proof (cases "h \<le> 0")
      case True
      with Some Cons show ?thesis by simp
    next
      case False
      define u where "u = fst (uniform R g (- session_count_noise cfg) (session_count_noise cfg))"
      define g1 where "g1 = snd (uniform R g (- session_count_noise cfg) (session_count_noise cfg))"
      from Cons.prems Some False obtain ss1 uc1 g2 ss2 where
        1: "main_sessions R cfg row (nat (num_sessions cfg h u)) uc g1 = Inr (ss1, uc1, g2)" and
        2: "main_rows R cfg rows uc1 g2 = Inr (ss2, uc', g')" and
        3: "ss = ss1 @ ss2"
        by (auto simp: Let_def u_def g1_def split: if_splits prod.splits sum.splits)
      from main_sessions_result[OF 1] have a: "uc \<le> uc1"
        "map user_id ss1 = map user_label [uc + 1 ..< uc1 + 1]" by auto
      from Cons.IH[OF 2] have b: "uc1 \<le> uc'"
        "map user_id ss2 = map user_label [uc1 + 1 ..< uc' + 1]" by auto
      from a b have "map user_id ss = map user_label ([uc + 1 ..< uc1 + 1] @ [uc1 + 1 ..< uc' + 1])"
        by (simp add: 3)
      also have "[uc + 1 ..< uc1 + 1] @ [uc1 + 1 ..< uc' + 1] = [uc + 1 ..< uc' + 1]"
        using a(1) b(1) by (intro upt_join) simp_all
      finally show ?thesis using a(1) b(1) by simp
    qed
  qed
qed

lemma pipeline_rows_users:
  "pipeline_rows R avg rows uc g = Inr (ss, uc', g') \<Longrightarrow>
     uc \<le> uc' \<and> map user_id ss = map user_label [uc + 1 ..< uc' + 1]"
proof (induction rows arbitrary: uc g ss)
  case Nil
  then show ?case by simp
next
  case (Cons row rows)
  show ?case
  proof (cases "\<exists>h. hours_played row = Some h \<and> 0 < h \<and> 0 < pipeline_num_sessions avg h")
    case False
    with Cons.prems have "pipeline_rows R avg rows uc g = Inr (ss, uc', g')"
      by (auto split: option.splits if_splits)
    with Cons.IH show ?thesis by blast
  next
    case True
    then obtain h where h: "hours_played row = Some h" "0 < h" "0 < pipeline_num_sessions avg h"
      by blast
    obtain ss1 uc1 g1 where
      1: "pipeline_sessions R avg row (nat (pipeline_num_sessions avg h)) uc g = (ss1, uc1, g1)"
      by (metis prod_cases3)
    from Cons.prems h 1 obtain ss2 where
      2: "pipeline_rows R avg rows uc1 g1 = Inr (ss2, uc', g')" and
      3: "ss = ss1 @ ss2"
      by (auto simp: Let_def split: if_splits prod.splits sum.splits)
    from pipeline_sessions_result[OF 1] have a: "uc \<le> uc1"
      "map user_id ss1 = map user_label [uc + 1 ..< uc1 + 1]" by auto
    from Cons.IH[OF 2] have b: "uc1 \<le> uc'"
      "map user_id ss2 = map user_label [uc1 + 1 ..< uc' + 1]" by auto
    from a b have "map user_id ss = map user_label ([uc + 1 ..< uc1 + 1] @ [uc1 + 1 ..< uc' + 1])"
      by (simp add: 3)
    also have "[uc + 1 ..< uc1 + 1] @ [uc1 + 1 ..< uc' + 1] = [uc + 1 ..< uc' + 1]"
      using a(1) b(1) by (intro upt_join) simp_all
    finally show ?thesis using a(1) b(1) by simp
  qed
qed



lemma num_sessions_bounds:
  "1 \<le> max_sessions_per_day cfg \<Longrightarrow>
     1 \<le> num_sessions cfg h u \<and> num_sessions cfg h u \<le> max_sessions_per_day cfg"
  by (simp add: num_sessions_def Let_def)



lemma main_rows_first:
  assumes "hours_played row = Some h" "0 < h" "avg_session_duration_min cfg \<noteq> 0"
    and "main_rows R cfg (row # rows) uc g = Inr (out, uc', g')"
  shows "\<exists>ss rest uc1 g1. out = ss @ rest \<and>
     length ss = nat (num_sessions cfg h
        (fst (uniform R g (- session_count_noise cfg) (session_count_noise cfg)))) \<and>
     (\<forall>s \<in> set ss. game_id s = game_name row) \<and>
     main_rows R cfg rows uc1 g1 = Inr (rest, uc', g')"
proof -
  define u where "u = fst (uniform R g (- session_count_noise cfg) (session_count_noise cfg))"
  define g1 where "g1 = snd (uniform R g (- session_count_noise cfg) (session_count_noise cfg))"
  from assms obtain ss1 uc1 g2 ss2 where
    1: "main_sessions R cfg row (nat (num_sessions cfg h u)) uc g1 = Inr (ss1, uc1, g2)" and
    2: "main_rows R cfg rows uc1 g2 = Inr (ss2, uc', g')" and
    3: "out = ss1 @ ss2"
    by (auto simp: Let_def u_def g1_def split: if_splits prod.splits sum.splits)
  from main_sessions_result[OF 1] 2 3 show ?thesis unfolding u_def by blast
qed

lemma pipeline_rows_first:
  assumes "hours_played row = Some h" "0 < h" "avg \<noteq> 0"
    and "pipeline_rows R avg (row # rows) uc g = Inr (out, uc', g')"
  shows "\<exists>ss rest uc1 g1. out = ss @ rest \<and>
     length ss = nat (pipeline_num_sessions avg h) \<and>
     (\<forall>s \<in> set ss. game_id s = game_name row \<and> duration s = avg) \<and>
     pipeline_rows R avg rows uc1 g1 = Inr (rest, uc', g')"
proof (cases "0 < pipeline_num_sessions avg h")
  case False
  with assms have "pipeline_rows R avg rows uc g = Inr (out, uc', g')" by simp
  moreover from False have "nat (pipeline_num_sessions avg h) = 0" by simp
  ultimately show ?thesis by (intro exI[of _ "[]"] exI[of _ out]) auto
next
  case True
  obtain ss1 uc1 g1 where
    1: "pipeline_sessions R avg row (nat (pipeline_num_sessions avg h)) uc g = (ss1, uc1, g1)"
    by (metis prod_cases3)
  from assms True 1 obtain ss2 where
    2: "pipeline_rows R avg rows uc1 g1 = Inr (ss2, uc', g')" and
    3: "out = ss1 @ ss2"
    by (auto simp: Let_def split: if_splits prod.splits sum.splits)
  from pipeline_sessions_result[OF 1] 2 3 show ?thesis by blast
qed

lemma main_sessions_total:
  "session_duration_min cfg \<le> session_duration_max cfg \<Longrightarrow>
     \<exists>r. main_sessions R cfg row k uc g = Inr r"
proof (induction k arbitrary: uc g)
  case 0
  then show ?case by simp
next
  case (Suc k)
  obtain x g1 where 1: "gauss R g (session_peak_hour cfg) (session_peak_stddev cfg) = (x, g1)"
    by (cases "gauss R g (session_peak_hour cfg) (session_peak_stddev cfg)")
  obtain m g2 where 2: "randint R g1 0 59 = (m, g2)" by (cases "randint R g1 0 59")
  obtain s g3 where 3: "randint R g2 0 59 = (s, g3)" by (cases "randint R g2 0 59")
  obtain d g4 where 4: "randint R g3 (session_duration_min cfg) (session_duration_max cfg) = (d, g4)"
    by (cases "randint R g3 (session_duration_min cfg) (session_duration_max cfg)")
  have "\<exists>r. main_sessions R cfg row k (uc + 1) g4 = Inr r" using Suc by simp
  then obtain ss uc' g' where "main_sessions R cfg row k (uc + 1) g4 = Inr (ss, uc', g')"
    by (metis prod_cases3)
  then show ?case using Suc.prems 1 2 3 4 by (simp add: Let_def)
qed

lemma main_rows_total:
  assumes "session_duration_min cfg \<le> session_duration_max cfg"
    "avg_session_duration_min cfg \<noteq> 0"
  shows "\<forall>row \<in> set rows. hours_played row \<noteq> None \<Longrightarrow>
     \<exists>r. main_rows R cfg rows uc g = Inr r"
proof (induction rows arbitrary: uc g)
  case Nil
  then show ?case by simp
next
  case (Cons row rows)
  then obtain h where h: "hours_played row = Some h" by auto
  show ?case
  proof (cases "h \<le> 0")
    case True
    with h Cons show ?thesis by simp
  next
    case False
    obtain u g1 where 1: "uniform R g (- session_count_noise cfg) (session_count_noise cfg) = (u, g1)"
      by (cases "uniform R g (- session_count_noise cfg) (session_count_noise cfg)")
    from main_sessions_total[OF assms(1)] obtain ss uc1 g2 where
      2: "main_sessions R cfg row (nat (num_sessions cfg h u)) uc g1 = Inr (ss, uc1, g2)"
      by (metis prod_cases3)
    have "\<exists>r. main_rows R cfg rows uc1 g2 = Inr r" using Cons by simp
    then obtain ss' uc' g' where "main_rows R cfg rows uc1 g2 = Inr (ss', uc', g')"
      by (metis prod_cases3)
    then show ?thesis using h False assms(2) 1 2 by (simp add: Let_def)
  qed
qed

lemma pipeline_rows_total:
  assumes "avg \<noteq> 0"
  shows "\<exists>r. pipeline_rows R avg rows uc g = Inr r"
proof (induction rows arbitrary: uc g)
  case Nil
  then show ?case by simp
next
  case (Cons row rows)
  show ?case
  proof (cases "\<exists>h. hours_played row = Some h \<and> 0 < h \<and> 0 < pipeline_num_sessions avg h")
    case False
    then have "pipeline_rows R avg (row # rows) uc g = pipeline_rows R avg rows uc g"
      using assms by (auto split: option.splits)
    with Cons show ?thesis by simp
  next
    case True
    then obtain h where h: "hours_played row = Some h" "0 < h" "0 < pipeline_num_sessions avg h"
      by blast
    obtain ss1 uc1 g1 where
      1: "pipeline_sessions R avg row (nat (pipeline_num_sessions avg h)) uc g = (ss1, uc1, g1)"
      by (metis prod_cases3)
    have "\<exists>r. pipeline_rows R avg rows uc1 g1 = Inr r" using Cons by simp
    then obtain ss' uc' g' where "pipeline_rows R avg rows uc1 g1 = Inr (ss', uc', g')"
      by (metis prod_cases3)
    then show ?thesis using h assms 1 by (simp add: Let_def)
  qed
qed




section \<open>Properties of the population-weighted simulation\<close>


lemma np_ok: "np_random_ok example_np_random"
proof -
  have "low + int g mod (high - low) < high" if "low < high" for low high :: int and g :: nat
    using pos_mod_bound[of "high - low" "int g"] that by linarith
  then show ?thesis
    by (auto simp: np_random_ok_def example_np_random_def)
qed

lemma sim_loop_zero_div:
  "target_session_count div 10 = 0 \<Longrightarrow> idx \<noteq> [] \<Longrightarrow>
   sim_loop R user_ids games probs simulation_days start_date target_session_count idx g
     = Inl ZeroDivisionError"
  by (cases idx) simp_all

lemma sim_loop_returns:
  "sim_loop R user_ids games probs simulation_days start_date target_session_count idx g = Inr r
   \<Longrightarrow> idx = [] \<or> target_session_count div 10 \<noteq> 0"
  by (cases idx) (simp_all split: if_splits)

lemma sim_loop_total:
  assumes "target_session_count div 10 \<noteq> 0" "user_ids \<noteq> []" "probs = Some p"
    "\<forall>x \<in> set p. 0 \<le> x" "0 < simulation_days"
  shows "\<exists>r. sim_loop R user_ids games probs simulation_days start_date target_session_count
            idx g = Inr r"
proof (induction idx arbitrary: g)
  case Nil
  then show ?case by simp
next
  case (Cons i rest)
  have neg: "\<not> (\<exists>x \<in> set p. x < 0)" using assms(4) by (auto simp: not_less)
  obtain ui g1 where 1: "np_choice R g (length user_ids) = (ui, g1)" by (cases "np_choice R g (length user_ids)")
  obtain gi g2 where 2: "np_choice_p R g1 p = (gi, g2)" by (cases "np_choice_p R g1 p")
  obtain d g3 where 3: "np_randint R g2 0 simulation_days = (d, g3)"
    by (cases "np_randint R g2 0 simulation_days")
  obtain b g4 where 4: "(if 5 \<le> weekday (plus_days start_date d) then np_triangular R g3 12 20 23
       else np_normal R g3 19 3) = (b, g4)"
    by (cases "(if 5 \<le> weekday (plus_days start_date d) then np_triangular R g3 12 20 23
       else np_normal R g3 19 3)")
  obtain m g5 where 5: "np_randint R g4 0 59 = (m, g5)" by (cases "np_randint R g4 0 59")
  obtain x g6 where 6: "np_lognormal R g5 (38 / 10) 1 = (x, g6)"
    by (cases "np_lognormal R g5 (38 / 10) 1")
  from Cons[of g6] obtain r where r: "sim_loop R user_ids games probs simulation_days start_date
      target_session_count rest g6 = Inr r" by blast
  obtain ss g' where r': "r = (ss, g')" by (cases r)
  show ?case
    using assms(1,2,3,5) neg 1 2 3 4 5 6 r r'
    by (simp add: Let_def del: set_empty)
qed

lemma probabilities_positive:
  assumes "ws \<noteq> []" "\<forall>w \<in> set ws. 0 < w"
  shows "\<exists>p. probabilities ws = Some p \<and> (\<forall>x \<in> set p. 0 \<le> x)"
proof -
  from assms obtain w rest where ws: "ws = w # rest" by (cases ws) auto
  have "0 \<le> sum_list rest" using assms(2) ws by (intro sum_list_nonneg) auto
  moreover have "0 < w" using assms(2) ws by simp
  ultimately have pos: "0 < sum_list ws" by (simp add: ws)
  then have "probabilities ws = Some (map (\<lambda>w. w / sum_list ws) ws)"
    by (simp add: probabilities_def)
  moreover have "\<forall>x \<in> set (map (\<lambda>w. w / sum_list ws) ws). 0 \<le> x"
    using assms(2) pos by (auto intro!: divide_nonneg_pos less_imp_le)
  ultimately show ?thesis by blast
qed

lemma simulate_user_sessions_total:
  assumes "game_weights \<noteq> []" "\<forall>w \<in> snd ` set game_weights. 0 < w"
    "1 \<le> num_users" "1 \<le> simulation_days" "10 \<le> target_session_count"
  shows "\<exists>r. simulate_user_sessions R g game_weights num_users simulation_days start_date
            target_session_count = Inr r"
proof -
  from probabilities_positive[of "map snd game_weights"] assms(1,2)
  obtain p where p: "probabilities (map snd game_weights) = Some p" "\<forall>x \<in> set p. 0 \<le> x"
    by auto
  have u: "map user_name [1 ..< nat (num_users + 1)] \<noteq> []" using assms(3) by simp
  have t: "target_session_count div 10 \<noteq> 0" using assms(5) by simp
  have d: "0 < simulation_days" using assms(4) by simp
  from sim_loop_total[OF t u p d]
  show ?thesis using assms(1) by (simp add: simulate_user_sessions_def Let_def)
qed

lemma sim_loop_sessions:
  assumes "np_random_ok R"
  shows "sim_loop R user_ids games probs simulation_days start_date target_session_count idx g
      = Inr (ss, g') \<Longrightarrow>
    length ss = length idx \<and> (\<forall>s \<in> set ss. sim_user_id s \<in> set user_ids)"
proof (induction idx arbitrary: g ss)
  case Nil
  then show ?case by simp
next
  case (Cons i rest)
  from assms have ch: "\<And>g n. 0 < n \<Longrightarrow> fst (np_choice R g n) < n"
    by (simp add: np_random_ok_def)
  from Cons.prems show ?case
    using Cons.IH ch[of "length user_ids" g]
    by (auto simp: Let_def split: if_splits option.splits prod.splits sum.splits)
qed

lemma pigeonhole_list:
  assumes "set xs \<subseteq> A" "finite A" "card A < length xs"
  shows "\<not> distinct xs"
proof
  assume "distinct xs"
  then have "length xs = card (set xs)" by (simp add: distinct_card)
  also have "\<dots> \<le> card A" using assms by (simp add: card_mono)
  finally show False using assms by simp
qed

lemma mode_b_users_from_pool:
  assumes "np_random_ok R" "game_weights \<noteq> []"
    and "simulate_user_sessions R g game_weights num_users simulation_days start_date
       target_session_count = Inr (ss, g')"
  shows "length ss = nat target_session_count \<and>
         set (map sim_user_id ss) \<subseteq> user_name ` {1 ..< nat (num_users + 1)} \<and>
         (nat num_users < nat target_session_count \<longrightarrow> \<not> distinct (map sim_user_id ss))"
proof -
  from assms(2,3) have "sim_loop R (map user_name [1 ..< nat (num_users + 1)]) (map fst game_weights)
      (probabilities (map snd game_weights)) simulation_days start_date target_session_count
      [0 ..< nat target_session_count] (np_seed R 42) = Inr (ss, g')"
    by (simp add: simulate_user_sessions_def Let_def)
  from sim_loop_sessions[OF assms(1) this]
  have len: "length ss = nat target_session_count"
    and sub: "set (map sim_user_id ss) \<subseteq> user_name ` {1 ..< nat (num_users + 1)}"
    by auto
  have "card (user_name ` {1 ..< nat (num_users + 1)}) \<le> card {1 ..< nat (num_users + 1)}"
    by (rule card_image_le) simp
  also have "\<dots> \<le> nat num_users" by simp
  finally have c: "card (user_name ` {1 ..< nat (num_users + 1)}) \<le> nat num_users" .
  have "\<not> distinct (map sim_user_id ss)" if "nat num_users < nat target_session_count"
    using sub
  proof (rule pigeonhole_list)
    show "finite (user_name ` {1 ..< nat (num_users + 1)})" by simp
    have "nat num_users < length ss" using that len by (simp only:)
    with c show "card (user_name ` {1 ..< nat (num_users + 1)}) < length (map sim_user_id ss)"
      by (simp only: length_map)
  qed
  with len sub show ?thesis by blast
qed

text \<open>
  Claim C2. Mode B determinism: the function seeds NumPy's generator with 42 before its first
  draw, so the session records it returns (or the exception it raises) are the same for
  equal arguments, whatever state the generator was in at the call.
\<close>

theorem mode_b_reproducible:
  "map_sum id fst (simulate_user_sessions R g game_weights num_users simulation_days start_date
       target_session_count)
   = map_sum id fst (simulate_user_sessions R g' game_weights num_users simulation_days start_date
       target_session_count)"
  by (simp add: simulate_user_sessions_def)

theorem mode_b_reproducible_witness:
  "map_sum id fst (simulate_user_sessions example_np_random 0 example_weights 100 30
       example_start_date 1000)
   = map_sum id fst (simulate_user_sessions example_np_random 977 example_weights 100 30
       example_start_date 1000)"
  by (rule mode_b_reproducible)

text \<open>
  Claim C10, as the code has it. With a non-empty weight mapping and a target session count
  from 1 to 9, the first pass through the loop evaluates \<open>(i + 1) % (target_session_count //
  10)\<close> with a zero divisor, and the function raises \<open>ZeroDivisionError\<close> instead of
  returning sessions. The function returns normally only when the count is at least 10, or
  is zero or negative: for a count of 0 or less the loop body never runs and the result is
  the empty frame. With a count of at least 10, at least one user, a window of at least one
  day and positive weights it does return.
\<close>

theorem mode_b_progress_division:
  assumes "game_weights \<noteq> []"
  shows "(1 \<le> target_session_count \<and> target_session_count \<le> 9 \<longrightarrow>
            simulate_user_sessions R g game_weights num_users simulation_days start_date
              target_session_count = Inl ZeroDivisionError) \<and>
         (target_session_count \<le> 0 \<longrightarrow>
            simulate_user_sessions R g game_weights num_users simulation_days start_date
              target_session_count = Inr ([], np_seed R 42)) \<and>
         ((\<exists>r. simulate_user_sessions R g game_weights num_users simulation_days start_date
              target_session_count = Inr r) \<longrightarrow>
            10 \<le> target_session_count \<or> target_session_count \<le> 0) \<and>
         (10 \<le> target_session_count \<and> 1 \<le> num_users \<and> 1 \<le> simulation_days \<and>
            (\<forall>w \<in> snd ` set game_weights. 0 < w) \<longrightarrow>
            (\<exists>r. simulate_user_sessions R g game_weights num_users simulation_days start_date
              target_session_count = Inr r))"
proof (intro conjI impI)
  assume t: "1 \<le> target_session_count \<and> target_session_count \<le> 9"
  then have "target_session_count div 10 = 0" by simp
  moreover from t have "[0 ..< nat target_session_count] \<noteq> []" by simp
  ultimately show "simulate_user_sessions R g game_weights num_users simulation_days start_date
              target_session_count = Inl ZeroDivisionError"
    using assms by (simp add: simulate_user_sessions_def Let_def sim_loop_zero_div)
next
  assume "target_session_count \<le> 0"
  then show "simulate_user_sessions R g game_weights num_users simulation_days start_date
              target_session_count = Inr ([], np_seed R 42)"
    using assms by (simp add: simulate_user_sessions_def Let_def)
next
  assume "\<exists>r. simulate_user_sessions R g game_weights num_users simulation_days start_date
              target_session_count = Inr r"
  then obtain r where "sim_loop R (map user_name [1 ..< nat (num_users + 1)]) (map fst game_weights)
      (probabilities (map snd game_weights)) simulation_days start_date target_session_count
      [0 ..< nat target_session_count] (np_seed R 42) = Inr r"
    using assms by (auto simp: simulate_user_sessions_def Let_def)
  from sim_loop_returns[OF this] show "10 \<le> target_session_count \<or> target_session_count \<le> 0"
    by auto
next
  assume "10 \<le> target_session_count \<and> 1 \<le> num_users \<and> 1 \<le> simulation_days \<and>
            (\<forall>w \<in> snd ` set game_weights. 0 < w)"
  with assms show "\<exists>r. simulate_user_sessions R g game_weights num_users simulation_days
      start_date target_session_count = Inr r"
    by (intro simulate_user_sessions_total) simp_all
qed

lemma example_weights_positive:
  "example_weights \<noteq> [] \<and> (\<forall>w \<in> snd ` set example_weights. 0 < w)"
  by (simp add: example_weights_def)

theorem mode_b_progress_division_witness:
  "example_weights \<noteq> [] \<and>
   simulate_user_sessions example_np_random 0 example_weights 100 30 example_start_date 5
     = Inl ZeroDivisionError \<and>
   simulate_user_sessions example_np_random 0 example_weights 100 30 example_start_date 0
     = Inr ([], np_seed example_np_random 42) \<and>
   (\<exists>r. simulate_user_sessions example_np_random 0 example_weights 100 30 example_start_date 10
     = Inr r)"
proof -
  have ne: "example_weights \<noteq> []" using example_weights_positive by simp
  note T = mode_b_progress_division[OF ne, of _ example_np_random 0 100 30 example_start_date]
  from T[of 5] have 1: "simulate_user_sessions example_np_random 0 example_weights 100 30
      example_start_date 5 = Inl ZeroDivisionError" by simp
  from T[of 0] have 2: "simulate_user_sessions example_np_random 0 example_weights 100 30
      example_start_date 0 = Inr ([], np_seed example_np_random 42)" by simp
  from T[of 10] example_weights_positive
  have 3: "\<exists>r. simulate_user_sessions example_np_random 0 example_weights 100 30
      example_start_date 10 = Inr r" by simp
  from ne 1 2 3 show ?thesis by simp
qed

text \<open>
  The claim's "only when the count is at least 10 (or 0)" fails for a negative count: the
  call returns the empty frame.
\<close>

theorem mode_b_progress_division_counterexample:
  "simulate_user_sessions example_np_random 0 example_weights 100 30 example_start_date (- 1)
     = Inr ([], 42) \<and>
   \<not> (10 \<le> (- 1 :: int) \<or> (- 1 :: int) = 0)"
  by (simp add: simulate_user_sessions_def example_weights_def example_np_random_def)

section \<open>User identifiers\<close>

lemma simulate_main_users:
  assumes "simulate_main R cfg df g = Inr ss"
  shows "map user_id ss = map user_label [1 ..< length ss + 1] \<and> distinct (map user_id ss)"
proof -
  from assms obtain uc' g' where run: "main_rows R cfg df 0 g = Inr (ss, uc', g')"
    by (cases "main_rows R cfg df 0 g") (auto simp: simulate_main_def)
  from main_rows_users[OF run] have m: "map user_id ss = map user_label [0 + 1 ..< uc' + 1]"
    by simp
  then have "length (map user_id ss) = length (map user_label [0 + 1 ..< uc' + 1])" by simp
  then have "uc' = length ss" by simp
  with m have e: "map user_id ss = map user_label [1 ..< length ss + 1]" by simp
  have "distinct (map user_id ss)" unfolding e by (rule distinct_user_labels)
  with e show ?thesis by (intro conjI)
qed

lemma simulate_sessions_users:
  assumes "simulate_sessions R avg df g = Inr ss"
  shows "map user_id ss = map user_label [1 ..< length ss + 1] \<and> distinct (map user_id ss)
         \<and> ss \<noteq> []"
proof -
  from assms obtain uc' g' where run: "pipeline_rows R avg df 0 g = Inr (ss, uc', g')"
    and ne: "ss \<noteq> []"
    by (cases "pipeline_rows R avg df 0 g") (auto simp: simulate_sessions_def split: if_splits)
  from pipeline_rows_users[OF run] have m: "map user_id ss = map user_label [0 + 1 ..< uc' + 1]"
    by simp
  then have "length (map user_id ss) = length (map user_label [0 + 1 ..< uc' + 1])" by simp
  then have "uc' = length ss" by simp
  with m have e: "map user_id ss = map user_label [1 ..< length ss + 1]" by simp
  have "distinct (map user_id ss)" unfolding e by (rule distinct_user_labels)
  with e ne show ?thesis by (intro conjI)
qed

text \<open>
  Claim C4, as the code has it. In Mode A, in both scripts, the sessions carry the user
  identifiers \<open>user_1\<close>, \<open>user_2\<close>, ... in order: each identifier occurs in exactly one
  session record. In Mode B the user of a session is drawn, with replacement, from the fixed
  pool \<open>USER_0001\<close> ... of \<open>num_users\<close> identifiers: identifiers can repeat, and do when
  there are more sessions than users.
\<close>

theorem user_ids_by_mode:
  "(simulate_main R cfg df g = Inr ss \<longrightarrow>
      map user_id ss = map user_label [1 ..< length ss + 1] \<and> distinct (map user_id ss)) \<and>
   (simulate_sessions P avg df p = Inr ss' \<longrightarrow>
      map user_id ss' = map user_label [1 ..< length ss' + 1] \<and> distinct (map user_id ss')) \<and>
   (np_random_ok N \<and> game_weights \<noteq> [] \<and>
    simulate_user_sessions N n game_weights num_users simulation_days start_date
      target_session_count = Inr (bs, n') \<longrightarrow>
      length bs = nat target_session_count \<and>
      set (map sim_user_id bs) \<subseteq> user_name ` {1 ..< nat (num_users + 1)} \<and>
      (nat num_users < nat target_session_count \<longrightarrow> \<not> distinct (map sim_user_id bs)))"
proof -
  have A: "simulate_main R cfg df g = Inr ss \<longrightarrow>
      map user_id ss = map user_label [1 ..< length ss + 1] \<and> distinct (map user_id ss)"
    by (rule impI) (rule simulate_main_users)
  have B: "simulate_sessions P avg df p = Inr ss' \<longrightarrow>
      map user_id ss' = map user_label [1 ..< length ss' + 1] \<and> distinct (map user_id ss')"
  proof
    assume "simulate_sessions P avg df p = Inr ss'"
    from simulate_sessions_users[OF this]
    show "map user_id ss' = map user_label [1 ..< length ss' + 1] \<and> distinct (map user_id ss')"
      by (elim conjE) (intro conjI)
  qed
  have C: "np_random_ok N \<and> game_weights \<noteq> [] \<and>
    simulate_user_sessions N n game_weights num_users simulation_days start_date
      target_session_count = Inr (bs, n') \<longrightarrow>
      length bs = nat target_session_count \<and>
      set (map sim_user_id bs) \<subseteq> user_name ` {1 ..< nat (num_users + 1)} \<and>
      (nat num_users < nat target_session_count \<longrightarrow> \<not> distinct (map sim_user_id bs))"
  proof
    assume b: "np_random_ok N \<and> game_weights \<noteq> [] \<and>
      simulate_user_sessions N n game_weights num_users simulation_days start_date
        target_session_count = Inr (bs, n')"
    then have ok: "np_random_ok N" and ne: "game_weights \<noteq> []"
      and run: "simulate_user_sessions N n game_weights num_users simulation_days start_date
        target_session_count = Inr (bs, n')" by simp_all
    show "length bs = nat target_session_count \<and>
      set (map sim_user_id bs) \<subseteq> user_name ` {1 ..< nat (num_users + 1)} \<and>
      (nat num_users < nat target_session_count \<longrightarrow> \<not> distinct (map sim_user_id bs))"
      by (rule mode_b_users_from_pool[OF ok ne run])
  qed
  from A B C show ?thesis by (intro conjI)
qed


lemma example_config_simps:
  "avg_session_duration_min example_config = 30" "session_count_noise example_config = 0"
  "max_sessions_per_day example_config = 50" "session_duration_min example_config = 15"
  "session_duration_max example_config = 120"
  by (simp_all add: example_config_def)

lemma example_daily_Cons:
  "\<exists>row rows. example_daily = row # rows \<and> hours_played row = Some 1 \<and>
     (\<forall>r \<in> set (row # rows). hours_played r \<noteq> None)"
  by (simp add: example_daily_def del: not_None_eq)

lemma example_main_run:
  "\<exists>ss. simulate_main example_py_random example_config example_daily 0 = Inr ss \<and> ss \<noteq> []"
proof -
  from example_daily_Cons obtain row rows where
    d: "example_daily = row # rows" and h: "hours_played row = Some 1"
    and a: "\<forall>r \<in> set (row # rows). hours_played r \<noteq> None" by blast
  have c: "session_duration_min example_config \<le> session_duration_max example_config"
    "avg_session_duration_min example_config \<noteq> 0"
    by (simp_all add: example_config_simps)
  from main_rows_total[OF c a] obtain out uc' g' where
    run: "main_rows example_py_random example_config (row # rows) 0 0 = Inr (out, uc', g')"
    by (metis prod_cases3)
  have pos: "(0 :: rat) < 1" by simp
  from main_rows_first[OF h pos c(2) run] obtain ss rest where
    o: "out = ss @ rest" and
    l: "length ss = nat (num_sessions example_config 1
        (fst (uniform example_py_random 0 (- session_count_noise example_config)
           (session_count_noise example_config))))"
    by blast
  have "1 \<le> max_sessions_per_day example_config" by (simp add: example_config_simps)
  from num_sessions_bounds[OF this, of 1 "fst (uniform example_py_random 0
      (- session_count_noise example_config) (session_count_noise example_config))"]
  have "0 < length ss" unfolding l by linarith
  with o have "out \<noteq> []" by auto
  moreover have "simulate_main example_py_random example_config example_daily 0 = Inr out"
    unfolding simulate_main_def d run by simp
  ultimately show ?thesis by blast
qed

lemma example_pipeline_run:
  "\<exists>ss. simulate_sessions example_py_random 30 example_daily 0 = Inr ss \<and> ss \<noteq> []"
proof -
  from example_daily_Cons obtain row rows where
    d: "example_daily = row # rows" and h: "hours_played row = Some 1" by blast
  have nz: "(30 :: int) \<noteq> 0" by simp
  from pipeline_rows_total[OF nz] obtain out uc' g' where
    run: "pipeline_rows example_py_random 30 (row # rows) 0 0 = Inr (out, uc', g')"
    by (metis prod_cases3)
  have pos: "(0 :: rat) < 1" by simp
  from pipeline_rows_first[OF h pos nz run] obtain ss rest where
    o: "out = ss @ rest" and l: "length ss = nat (pipeline_num_sessions 30 1)"
    by blast
  have "pipeline_num_sessions 30 1 = 2" by code_simp
  with l o have ne: "out \<noteq> []" by auto
  then have "simulate_sessions example_py_random 30 example_daily 0 = Inr out"
    unfolding simulate_sessions_def d run by simp
  with ne show ?thesis by blast
qed

lemma example_mode_b_run:
  assumes "1 \<le> num_users"
  shows "\<exists>bs n'. simulate_user_sessions example_np_random 0 example_weights num_users 30
            example_start_date 10 = Inr (bs, n') \<and>
          length bs = 10 \<and> set (map sim_user_id bs) \<subseteq> user_name ` {1 ..< nat (num_users + 1)} \<and>
          (nat num_users < 10 \<longrightarrow> \<not> distinct (map sim_user_id bs))"
proof -
  note w = example_weights_positive
  have "\<exists>r. simulate_user_sessions example_np_random 0 example_weights num_users 30
            example_start_date 10 = Inr r"
    using w assms by (intro simulate_user_sessions_total) simp_all
  then obtain bs n' where run: "simulate_user_sessions example_np_random 0 example_weights
      num_users 30 example_start_date 10 = Inr (bs, n')"
    by (metis prod.exhaust)
  from mode_b_users_from_pool[OF np_ok w[THEN conjunct1] run] run
  show ?thesis by simp
qed

theorem user_ids_by_mode_witness:
  "(\<exists>ss. simulate_main example_py_random example_config example_daily 0 = Inr ss \<and>
      ss \<noteq> [] \<and> distinct (map user_id ss)) \<and>
   (\<exists>ss. simulate_sessions example_py_random 30 example_daily 0 = Inr ss \<and>
      ss \<noteq> [] \<and> distinct (map user_id ss)) \<and>
   (\<exists>bs n'. simulate_user_sessions example_np_random 0 example_weights 3 30
        example_start_date 10 = Inr (bs, n') \<and>
      length bs = 10 \<and> \<not> distinct (map sim_user_id bs))"
proof -
  from example_main_run obtain ss where
    a: "simulate_main example_py_random example_config example_daily 0 = Inr ss" "ss \<noteq> []"
    by blast
  from example_pipeline_run obtain ss' where
    b: "simulate_sessions example_py_random 30 example_daily 0 = Inr ss'" "ss' \<noteq> []"
    by blast
  from example_mode_b_run[of 3] obtain bs n' where
    c: "simulate_user_sessions example_np_random 0 example_weights 3 30
        example_start_date 10 = Inr (bs, n')"
    by auto
  note T = user_ids_by_mode[of example_py_random example_config example_daily 0 ss
      example_py_random 30 0 ss' example_np_random example_weights 0 3 30 example_start_date
      10 bs n']
  from T[THEN conjunct1, THEN mp, OF a(1)] a
  have 1: "\<exists>ss. simulate_main example_py_random example_config example_daily 0 = Inr ss \<and>
      ss \<noteq> [] \<and> distinct (map user_id ss)" by blast
  from T[THEN conjunct2, THEN conjunct1, THEN mp, OF b(1)] b
  have 2: "\<exists>ss. simulate_sessions example_py_random 30 example_daily 0 = Inr ss \<and>
      ss \<noteq> [] \<and> distinct (map user_id ss)" by blast
  have "np_random_ok example_np_random \<and> example_weights \<noteq> [] \<and>
      simulate_user_sessions example_np_random 0 example_weights 3 30
        example_start_date 10 = Inr (bs, n')"
    using np_ok example_weights_positive c by simp
  from T[THEN conjunct2, THEN conjunct2, THEN mp, OF this]
  have "length bs = 10 \<and> \<not> distinct (map sim_user_id bs)" by simp
  with c have 3: "\<exists>bs n'. simulate_user_sessions example_np_random 0 example_weights 3 30
        example_start_date 10 = Inr (bs, n') \<and>
      length bs = 10 \<and> \<not> distinct (map sim_user_id bs)" by blast
  from 1 2 3 show ?thesis by (intro conjI)
qed

text \<open>
  The claim fails in Mode B: with a pool of one user and ten sessions, every session has the
  user \<open>USER_0001\<close>.
\<close>

theorem user_ids_by_mode_counterexample:
  "length (fst (projr (simulate_user_sessions example_np_random 0 example_weights 1 30
      example_start_date 10))) = 10 \<and>
   set (map sim_user_id (fst (projr (simulate_user_sessions example_np_random 0 example_weights
      1 30 example_start_date 10)))) = {''USER_0001''} \<and>
   \<not> distinct (map sim_user_id (fst (projr (simulate_user_sessions example_np_random 0
      example_weights 1 30 example_start_date 10))))"
proof -
  from example_mode_b_run[of 1] obtain bs n' where
    run: "simulate_user_sessions example_np_random 0 example_weights 1 30
        example_start_date 10 = Inr (bs, n')"
    and l: "length bs = 10"
    and s: "set (map sim_user_id bs) \<subseteq> user_name ` {1 ..< nat (1 + 1)}"
    and n: "\<not> distinct (map sim_user_id bs)"
    by auto
  have "user_name 1 = ''USER_0001''" by code_simp
  moreover have "{1 ..< nat (1 + 1)} = {1 :: nat}" by auto
  ultimately have "user_name ` {1 ..< nat (1 + 1)} = {''USER_0001''}" by simp
  with s have sub: "set (map sim_user_id bs) \<subseteq> {''USER_0001''}" by simp
  from l have "bs \<noteq> []" by auto
  then have "set (map sim_user_id bs) \<noteq> {}" by simp
  have ne: "set (map sim_user_id bs) \<noteq> {}" by fact
  have "set (map sim_user_id bs) = {} \<or> set (map sim_user_id bs) = {''USER_0001''}"
    using sub by (rule subset_singletonD)
  then have "set (map sim_user_id bs) = {''USER_0001''}"
  proof
    assume e: "set (map sim_user_id bs) = {}"
    from ne e show ?thesis by (rule notE)
  next
    assume "set (map sim_user_id bs) = {''USER_0001''}"
    then show ?thesis .
  qed
  with l n show ?thesis unfolding run by simp
qed

section \<open>Properties of the cleaning pass\<close>

lemma round_half_even_nearest: "\<bar>of_int (round_half_even x) - x\<bar> \<le> 1 / 2"
proof -
  define f where "f = \<lfloor>x\<rfloor>"
  define d where "d = x - of_int f"
  have d: "0 \<le> d" "d < 1" unfolding d_def f_def by linarith+
  have x: "x = of_int f + d" by (simp add: d_def)
  show ?thesis
    unfolding round_half_even_def Let_def f_def[symmetric] d_def[symmetric]
    using d by (auto simp: x abs_if)
qed

lemma round_half_even_of_int: "round_half_even (of_int n) = n"
  by (simp add: round_half_even_def Let_def)

lemma recomputed_duration_Some:
  "recomputed_duration r = Some d \<longleftrightarrow>
     (\<exists>s e. row_session_start r = Some s \<and> row_session_end r = Some e \<and>
        d = round_half_even (of_int (e - s) / 60000000000))"
  by (auto simp: recomputed_duration_def split: option.splits)

lemma recomputed_duration_None:
  "recomputed_duration r = None \<longleftrightarrow> row_session_start r = None \<or> row_session_end r = None"
  by (auto simp: recomputed_duration_def split: option.splits)

lemma clean_sessions_result:
  "clean_sessions (Some rows) =
     (if rows \<noteq> [] \<and> (\<exists>r \<in> set rows. row_session_start r = None \<or> row_session_end r = None)
      then Inl ValueError
      else Inr (filter (\<lambda>r. row_complete r \<and> positive_duration r) (map set_duration rows)))"
  by (auto simp: clean_sessions_def recomputed_duration_None conj_commute
      intro!: filter_cong)

lemma set_duration_fields:
  "row_session_start (set_duration r) = row_session_start r"
  "row_session_end (set_duration r) = row_session_end r"
  "row_session_duration (set_duration r) = recomputed_duration r"
  by (simp_all add: set_duration_def)

lemma survivor:
  assumes "x \<in> set (filter (\<lambda>r. row_complete r \<and> positive_duration r) (map set_duration rows))"
  shows "row_complete x \<and>
     (\<exists>s e d. row_session_start x = Some s \<and> row_session_end x = Some e \<and>
        row_session_duration x = Some d \<and>
        d = round_half_even (of_int (e - s) / 60000000000) \<and>
        \<bar>of_int d - of_int (e - s) / 60000000000\<bar> \<le> (1 / 2 :: rat) \<and> 0 < d)"
proof -
  from assms obtain r where r: "r \<in> set rows" and x: "x = set_duration r"
    and c: "row_complete x" and p: "positive_duration x" by auto
  from p obtain d where d: "row_session_duration x = Some d" "0 < d"
    by (auto simp: positive_duration_def split: option.splits)
  with x have "recomputed_duration r = Some d" by (simp add: set_duration_fields)
  then obtain s e where se: "row_session_start r = Some s" "row_session_end r = Some e"
    "d = round_half_even (of_int (e - s) / 60000000000)"
    by (auto simp: recomputed_duration_Some)
  have "\<bar>of_int d - of_int (e - s) / 60000000000\<bar> \<le> (1 / 2 :: rat)"
    unfolding se(3) by (rule round_half_even_nearest)
  with c d se x show ?thesis by (simp add: set_duration_fields)
qed


text \<open>
  What holds of a frame that \<open>clean_sessions\<close> returns: every row of it has no missing field
  and a stored duration that is the number of minutes from \<open>session_start\<close> to
  \<open>session_end\<close> rounded to the nearest whole minute (within half a minute of it; a tie goes
  to the even minute) and strictly positive. The rows of the result are rows of the input
  with the recomputed duration stored: a row whose recomputed duration is not positive, or
  that has a missing field, is absent, and every other row is present. The function returns
  a frame whenever no timestamp is missing.
\<close>

lemma clean_sessions_returned_frame:
  "clean_sessions None = Inr [] \<and> clean_sessions (Some []) = Inr [] \<and>
   ((\<forall>r \<in> set rows. row_session_start r \<noteq> None \<and> row_session_end r \<noteq> None) \<longrightarrow>
      (\<exists>out. clean_sessions (Some rows) = Inr out)) \<and>
   (clean_sessions (Some rows) = Inr out \<longrightarrow>
      (\<forall>x \<in> set out. row_complete x \<and>
         (\<exists>s e d. row_session_start x = Some s \<and> row_session_end x = Some e \<and>
            row_session_duration x = Some d \<and>
            d = round_half_even (of_int (e - s) / 60000000000) \<and>
            \<bar>of_int d - of_int (e - s) / 60000000000\<bar> \<le> (1 / 2 :: rat) \<and> 0 < d)) \<and>
      (\<forall>r \<in> set rows.
         (\<exists>d. recomputed_duration r = Some d \<and> d \<le> 0) \<or> \<not> row_complete (set_duration r) \<longrightarrow>
         set_duration r \<notin> set out) \<and>
      (\<forall>r \<in> set rows.
         (\<exists>d. recomputed_duration r = Some d \<and> 0 < d) \<and> row_complete (set_duration r) \<longrightarrow>
         set_duration r \<in> set out) \<and>
      set out \<subseteq> set_duration ` set rows \<and> length out \<le> length rows)"
proof -
  let ?keep = "\<lambda>r. row_complete r \<and> positive_duration r"
  have 1: "clean_sessions None = Inr []" "clean_sessions (Some []) = Inr []"
    by (simp_all add: clean_sessions_def)
  have 2: "(\<forall>r \<in> set rows. row_session_start r \<noteq> None \<and> row_session_end r \<noteq> None) \<longrightarrow>
      (\<exists>out. clean_sessions (Some rows) = Inr out)"
    by (auto simp: clean_sessions_result simp del: not_None_eq)
  have 3: "clean_sessions (Some rows) = Inr out \<longrightarrow>
      (\<forall>x \<in> set out. row_complete x \<and>
         (\<exists>s e d. row_session_start x = Some s \<and> row_session_end x = Some e \<and>
            row_session_duration x = Some d \<and>
            d = round_half_even (of_int (e - s) / 60000000000) \<and>
            \<bar>of_int d - of_int (e - s) / 60000000000\<bar> \<le> (1 / 2 :: rat) \<and> 0 < d)) \<and>
      (\<forall>r \<in> set rows.
         (\<exists>d. recomputed_duration r = Some d \<and> d \<le> 0) \<or> \<not> row_complete (set_duration r) \<longrightarrow>
         set_duration r \<notin> set out) \<and>
      (\<forall>r \<in> set rows.
         (\<exists>d. recomputed_duration r = Some d \<and> 0 < d) \<and> row_complete (set_duration r) \<longrightarrow>
         set_duration r \<in> set out) \<and>
      set out \<subseteq> set_duration ` set rows \<and> length out \<le> length rows"
  proof
    assume "clean_sessions (Some rows) = Inr out"
    then have out: "out = filter ?keep (map set_duration rows)"
      by (simp add: clean_sessions_result split: if_splits)
    have a: "\<forall>x \<in> set out. row_complete x \<and>
         (\<exists>s e d. row_session_start x = Some s \<and> row_session_end x = Some e \<and>
            row_session_duration x = Some d \<and>
            d = round_half_even (of_int (e - s) / 60000000000) \<and>
            \<bar>of_int d - of_int (e - s) / 60000000000\<bar> \<le> (1 / 2 :: rat) \<and> 0 < d)"
      unfolding out using survivor by blast
    have pd: "positive_duration (set_duration r) \<longleftrightarrow> (\<exists>d. recomputed_duration r = Some d \<and> 0 < d)"
      for r
      by (auto simp: positive_duration_def set_duration_fields split: option.splits)
    have b: "\<forall>r \<in> set rows.
         (\<exists>d. recomputed_duration r = Some d \<and> d \<le> 0) \<or> \<not> row_complete (set_duration r) \<longrightarrow>
         set_duration r \<notin> set out"
      unfolding out by (auto simp: pd)
    have c: "\<forall>r \<in> set rows.
         (\<exists>d. recomputed_duration r = Some d \<and> 0 < d) \<and> row_complete (set_duration r) \<longrightarrow>
         set_duration r \<in> set out"
      unfolding out by (auto simp: pd)
    have d: "set out \<subseteq> set_duration ` set rows" unfolding out by auto
    have e: "length out \<le> length rows"
      unfolding out using length_filter_le[of ?keep "map set_duration rows"] by simp
    from a b c d e show "(\<forall>x \<in> set out. row_complete x \<and>
         (\<exists>s e d. row_session_start x = Some s \<and> row_session_end x = Some e \<and>
            row_session_duration x = Some d \<and>
            d = round_half_even (of_int (e - s) / 60000000000) \<and>
            \<bar>of_int d - of_int (e - s) / 60000000000\<bar> \<le> (1 / 2 :: rat) \<and> 0 < d)) \<and>
      (\<forall>r \<in> set rows.
         (\<exists>d. recomputed_duration r = Some d \<and> d \<le> 0) \<or> \<not> row_complete (set_duration r) \<longrightarrow>
         set_duration r \<notin> set out) \<and>
      (\<forall>r \<in> set rows.
         (\<exists>d. recomputed_duration r = Some d \<and> 0 < d) \<and> row_complete (set_duration r) \<longrightarrow>
         set_duration r \<in> set out) \<and>
      set out \<subseteq> set_duration ` set rows \<and> length out \<le> length rows"
      by (intro conjI)
  qed
  from 1 2 3 show ?thesis by (intro conjI)
qed

lemma example_cleaned:
  "clean_sessions (Some example_frame) =
     Inr [example_row (Some ''USER_0001'') 0 1800000000000 (Some 30),
          example_row (Some ''USER_0003'') 0 90000000000 (Some 2)]"
  by code_simp


lemma clean_sessions_returned_frame_example:
  "clean_sessions (Some example_frame) =
     Inr [example_row (Some ''USER_0001'') 0 1800000000000 (Some 30),
          example_row (Some ''USER_0003'') 0 90000000000 (Some 2)] \<and>
   row_complete (example_row (Some ''USER_0001'') 0 1800000000000 (Some 30)) \<and>
   round_half_even (of_int (90000000000 - 0) / 60000000000) = 2 \<and>
   recomputed_duration (example_row (Some ''USER_0002'') 1800000000000 0 (Some 30)) = Some (- 30) \<and>
   set_duration (example_row (Some ''USER_0002'') 1800000000000 0 (Some 30))
     \<notin> set [example_row (Some ''USER_0001'') 0 1800000000000 (Some 30),
              example_row (Some ''USER_0003'') 0 90000000000 (Some 2)] \<and>
   set_duration (example_row None 0 1800000000000 (Some 30))
     \<notin> set [example_row (Some ''USER_0001'') 0 1800000000000 (Some 30),
              example_row (Some ''USER_0003'') 0 90000000000 (Some 2)]"
proof -
  define A where "A = example_row (Some ''USER_0001'') 0 1800000000000 (Some 30)"
  define B where "B = example_row (Some ''USER_0003'') 0 90000000000 (Some 2)"
  define N where "N = example_row (Some ''USER_0002'') 1800000000000 0 (Some 30)"
  define M where "M = example_row None 0 1800000000000 (Some 30)"
  have run: "clean_sessions (Some example_frame) = Inr [A, B]"
    unfolding A_def B_def by (rule example_cleaned)
  note T = clean_sessions_returned_frame[of example_frame "[A, B]"]
  note P = T[THEN conjunct2, THEN conjunct2, THEN conjunct2, THEN mp, OF run]
  have "A \<in> set [A, B]" by simp
  with P[THEN conjunct1] have a: "row_complete A" by blast
  have r: "round_half_even (of_int (90000000000 - 0) / 60000000000) = 2" by code_simp
  have nd: "recomputed_duration N = Some (- 30)" unfolding N_def by code_simp
  have "N \<in> set example_frame" unfolding N_def example_frame_def by simp
  moreover from nd have "(\<exists>d. recomputed_duration N = Some d \<and> d \<le> 0) \<or> \<not> row_complete (set_duration N)"
    by simp
  ultimately have n: "set_duration N \<notin> set [A, B]"
    using P[THEN conjunct2, THEN conjunct1] by blast
  have "\<not> row_complete (set_duration M)"
    by (simp add: M_def row_complete_def set_duration_def example_row_def)
  then have "(\<exists>d. recomputed_duration M = Some d \<and> d \<le> 0) \<or> \<not> row_complete (set_duration M)"
    by simp
  moreover have "M \<in> set example_frame" unfolding M_def example_frame_def by simp
  ultimately have m: "set_duration M \<notin> set [A, B]"
    using P[THEN conjunct2, THEN conjunct1] by blast
  from run a r nd n m show ?thesis
    unfolding A_def B_def N_def M_def by (intro conjI)
qed


lemma clean_sessions_missing_timestamp_raises:
  assumes "r \<in> set rows" "row_session_start r = None \<or> row_session_end r = None"
  shows "clean_sessions (Some rows) = Inl ValueError"
proof -
  from assms(1) have "rows \<noteq> []" by auto
  with assms show ?thesis unfolding clean_sessions_result by auto
qed

text \<open>
  Claim C3. Cleaning pass postcondition: every row that survives \<open>clean_sessions\<close> stores the
  rounded, strictly positive number of minutes from \<open>session_start\<close> to \<open>session_end\<close>, and
  every row with a non-positive recomputed duration or with a missing field is absent from
  the output. The code diverges on a row whose \<open>session_start\<close> or \<open>session_end\<close> is missing:
  \<open>astype(int)\<close> is applied to the recomputed durations before \<open>dropna\<close> is reached, and it
  raises \<open>ValueError\<close> on the missing duration of that row, so that there is no output at
  all and the complete rows of the frame are lost with it. On the frame of one complete
  thirty-minute session and one session without \<open>session_start\<close> the function raises, where
  the claim (and the docstring, "drops missing values") has it return the first row alone;
  without the second row it does return that row.
\<close>

theorem clean_sessions_missing_timestamp:
  "clean_sessions (Some [example_row (Some ''USER_0001'') 0 1800000000000 (Some 30),
                        (example_row (Some ''USER_0002'') 0 1800000000000 (Some 30))
                           \<lparr>row_session_start := None\<rparr>]) = Inl ValueError \<and>
   clean_sessions (Some [example_row (Some ''USER_0001'') 0 1800000000000 (Some 30),
                        (example_row (Some ''USER_0002'') 0 1800000000000 (Some 30))
                           \<lparr>row_session_end := None\<rparr>]) = Inl ValueError \<and>
   clean_sessions (Some [example_row (Some ''USER_0001'') 0 1800000000000 (Some 30)])
     = Inr [example_row (Some ''USER_0001'') 0 1800000000000 (Some 30)] \<and>
   clean_sessions (Some [example_row (Some ''USER_0001'') 0 1800000000000 (Some 30),
                        example_row None 0 1800000000000 (Some 30)])
     = Inr [example_row (Some ''USER_0001'') 0 1800000000000 (Some 30)]"
  by code_simp
section \<open>Properties of the persistence sink\<close>

lemma disk_commit: "disk (commit c) = current c"
  by (simp add: commit_def current_def split: option.splits)

lemma disk_rollback: "disk (rollback c) = disk c"
  by (simp add: rollback_def)

lemma commit_commit: "commit (commit c) = commit c"
  by (simp add: commit_def split: option.splits)

lemma current_rollback: "current (rollback c) = disk c"
  by (simp add: rollback_def current_def)

lemma insert_row_result:
  assumes "current c = Some t"
  shows "\<exists>c'. insert_row c x = Inr c' \<and> disk c' = disk c \<and>
     current c' = Some \<lparr>table_rows = table_rows t @ [(last_id t + 1, x)],
                         last_id = last_id t + 1\<rparr>"
proof -
  have "current (begin_txn c) = Some t" "disk (begin_txn c) = disk c"
    using assms by (auto simp: begin_txn_def current_def split: option.splits)
  then show ?thesis
    by (simp add: insert_row_def Let_def current_def)
qed

lemma insert_rows_result:
  assumes "current c = Some t"
  shows "if (\<exists>j. fail_at = Some j \<and> i \<le> j \<and> j < i + length xs)
     then (\<exists>c'. insert_rows fail_at i c xs = Inl (DatabaseError, c') \<and> disk c' = disk c)
     else (\<exists>c'. insert_rows fail_at i c xs = Inr c' \<and> disk c' = disk c \<and>
             current c' = Some \<lparr>table_rows = table_rows t
                                    @ zip [last_id t + 1 ..< last_id t + 1 + length xs] xs,
                                  last_id = last_id t + length xs\<rparr>)"
  using assms
proof (induction xs arbitrary: i c t)
  case Nil
  then show ?case by simp
next
  case (Cons x xs)
  show ?case
  proof (cases "fail_at = Some i")
    case True
    then show ?thesis by auto
  next
    case False
    from insert_row_result[OF Cons.prems, of x] obtain c1 where
      c1: "insert_row c x = Inr c1" "disk c1 = disk c"
      "current c1 = Some \<lparr>table_rows = table_rows t @ [(last_id t + 1, x)],
                           last_id = last_id t + 1\<rparr>"
      by blast
    have step: "insert_rows fail_at i c (x # xs) = insert_rows fail_at (Suc i) c1 xs"
      using False c1(1) by simp
    have cond: "(\<exists>j. fail_at = Some j \<and> i \<le> j \<and> j < i + length (x # xs)) \<longleftrightarrow>
        (\<exists>j. fail_at = Some j \<and> Suc i \<le> j \<and> j < Suc i + length xs)"
      using False by (auto simp: le_less Suc_le_eq)
    define ids where "ids = [last_id t + 1 + 1 ..< last_id t + 1 + 1 + length xs]"
    have upt: "[last_id t + 1 ..< last_id t + 1 + length (x # xs)] = (last_id t + 1) # ids"
      unfolding ids_def by (subst upt_conv_Cons) auto
    define t1 where "t1 = \<lparr>table_rows = table_rows t @ [(last_id t + 1, x)],
                           last_id = last_id t + 1\<rparr>"
    have t1: "table_rows t1 = table_rows t @ [(last_id t + 1, x)]" "last_id t1 = last_id t + 1"
      by (simp_all add: t1_def)
    note IH = Cons.IH[OF c1(3)[folded t1_def], of "Suc i", unfolded t1, folded ids_def]
    show ?thesis
    proof (cases "\<exists>j. fail_at = Some j \<and> Suc i \<le> j \<and> j < Suc i + length xs")
      case True
      with IH have "\<exists>c'. insert_rows fail_at (Suc i) c1 xs = Inl (DatabaseError, c') \<and>
          disk c' = disk c1" by (simp only: if_True)
      with True show ?thesis unfolding step cond by (simp only: if_True c1(2))
    next
      case False
      with IH have "\<exists>c'. insert_rows fail_at (Suc i) c1 xs = Inr c' \<and> disk c' = disk c1 \<and>
             current c' = Some \<lparr>table_rows = (table_rows t @ [(last_id t + 1, x)]) @ zip ids xs,
                                  last_id = last_id t + 1 + length xs\<rparr>"
        by (simp only: if_False)
      moreover have "(table_rows t @ [(last_id t + 1, x)]) @ zip ids xs
          = table_rows t @ zip ((last_id t + 1) # ids) (x # xs)" by simp
      moreover have "last_id t + 1 + length xs = last_id t + length (x # xs)" by simp
      ultimately show ?thesis
        using False unfolding step cond upt by (simp only: if_False c1(2))
    qed
  qed
qed


lemma fresh_connection:
  "create_table (drop_table_if_exists (connect file))
     = Inr \<lparr>disk = Some empty_table, txn = None\<rparr>"
  by (simp add: create_table_def drop_table_if_exists_def connect_def write_table_def
      current_def empty_table_def)

lemma to_sql_fresh:
  fixes xs :: "'a list"
  defines "c0 \<equiv> \<lparr>disk = Some (empty_table :: 'a table), txn = None\<rparr>"
  shows "if (\<exists>j. fail_at = Some j \<and> j < length xs)
     then (\<exists>c'. to_sql own_txn fail_at c0 xs = (Some DatabaseError, c') \<and>
             disk c' = Some empty_table)
     else (\<exists>c'. to_sql own_txn fail_at c0 xs = (None, c') \<and>
             current c' = Some (full_table xs))"
proof -
  have cur: "current c0 = Some empty_table" by (simp add: c0_def current_def)
  have d0: "disk c0 = Some empty_table" by (simp add: c0_def)
  note R = insert_rows_result[OF cur, of fail_at 0 xs]
  show ?thesis
  proof (cases "\<exists>j. fail_at = Some j \<and> j < length xs")
    case True
    then have "\<exists>j. fail_at = Some j \<and> 0 \<le> j \<and> j < 0 + length xs" by simp
    with R obtain c' where c': "insert_rows fail_at 0 c0 xs = Inl (DatabaseError, c')"
      "disk c' = disk c0" by (simp only: if_True) blast
    then have "to_sql own_txn fail_at c0 xs
        = (Some DatabaseError, if own_txn then rollback c' else c')"
      by (simp add: to_sql_def)
    moreover have "disk (if own_txn then rollback c' else c') = Some empty_table"
      using c'(2) d0 by (simp add: disk_rollback)
    ultimately show ?thesis using True by (simp only: if_True) blast
  next
    case False
    then have "\<not> (\<exists>j. fail_at = Some j \<and> 0 \<le> j \<and> j < 0 + length xs)" by simp
    with R obtain c' where c': "insert_rows fail_at 0 c0 xs = Inr c'"
      "current c' = Some \<lparr>table_rows = table_rows (empty_table :: 'a table)
                                @ zip [last_id (empty_table :: 'a table) + 1
                                       ..< last_id (empty_table :: 'a table) + 1 + length xs] xs,
                            last_id = last_id (empty_table :: 'a table) + length xs\<rparr>"
      by (simp only: if_False) blast
    have full: "current c' = Some (full_table xs)"
      unfolding c'(2) by (simp add: empty_table_def full_table_def)
    have "to_sql own_txn fail_at c0 xs = (None, if own_txn then commit c' else c')"
      using c'(1) by (simp add: to_sql_def)
    moreover have "current (if own_txn then commit c' else c') = Some (full_table xs)"
      using full by (simp add: current_def commit_def split: option.splits)
    ultimately show ?thesis using False by (simp only: if_False) blast
  qed
qed

lemma setup_database_result:
  "setup_database own_txn fail_at file sessions_df =
     (if (\<exists>j. fail_at = Some j \<and> j < length sessions_df)
      then (Some DatabaseError, Some empty_table)
      else (None, Some (full_table sessions_df)))"
proof (cases "\<exists>j. fail_at = Some j \<and> j < length sessions_df")
  case True
  with to_sql_fresh[of fail_at sessions_df own_txn] obtain c' where
    "to_sql own_txn fail_at \<lparr>disk = Some empty_table, txn = None\<rparr> sessions_df
       = (Some DatabaseError, c')" "disk c' = Some empty_table"
    by (simp only: if_True) blast
  then show ?thesis using True
    by (simp add: setup_database_def Let_def fresh_connection close_def disk_rollback)
next
  case False
  with to_sql_fresh[of fail_at sessions_df own_txn] obtain c' where
    "to_sql own_txn fail_at \<lparr>disk = Some empty_table, txn = None\<rparr> sessions_df = (None, c')"
    "current c' = Some (full_table sessions_df)"
    by (simp only: if_False) blast
  then show ?thesis using False
    by (simp add: setup_database_def Let_def fresh_connection close_def disk_commit)
qed

lemma main_persist_result:
  "main_persist own_txn fail_at file session_logs =
     (if session_logs = [] then (False, file)
      else if (\<exists>j. fail_at = Some j \<and> j < length session_logs)
      then (True, Some empty_table)
      else (False, Some (full_table session_logs)))"
proof (cases "\<exists>j. fail_at = Some j \<and> j < length session_logs")
  case True
  with to_sql_fresh[of fail_at session_logs own_txn] obtain c' where
    "to_sql own_txn fail_at \<lparr>disk = Some empty_table, txn = None\<rparr> session_logs
       = (Some DatabaseError, c')" "disk c' = Some empty_table"
    by (simp only: if_True) blast
  then show ?thesis using True
    by (auto simp: main_persist_def Let_def fresh_connection close_def)
next
  case False
  with to_sql_fresh[of fail_at session_logs own_txn] obtain c' where
    "to_sql own_txn fail_at \<lparr>disk = Some empty_table, txn = None\<rparr> session_logs = (None, c')"
    "current c' = Some (full_table session_logs)"
    by (simp only: if_False) blast
  then show ?thesis using False
    by (auto simp: main_persist_def Let_def fresh_connection close_def disk_commit)
qed

text \<open>
  Claim C8. Persistence sink atomicity. Whatever the file held before, and whether or not
  pandas manages the transaction itself: when no insertion fails, the file ends with a
  fresh \<open>session_logs\<close> table that holds every row of the batch, in order, with the ids 1,
  2, ..., committed; when the insertion of some row of the batch fails, the file ends with
  the fresh table empty, as none of the rows inserted before the failure is committed, and
  \<open>setup_database\<close> raises the error (\<open>main\<close> of \<open>simulate_sessions.py\<close> prints it). So
  the stored table holds all rows of the batch or none, never a part of it. (\<open>main\<close>
  leaves the file alone when there is no session to write.)
\<close>

theorem persistence_all_or_nothing:
  fixes sessions_df session_logs :: "'a list"
  shows
  "setup_database own_txn fail_at file sessions_df =
     (if (\<exists>j. fail_at = Some j \<and> j < length sessions_df)
      then (Some DatabaseError, Some empty_table)
      else (None, Some (full_table sessions_df))) \<and>
   main_persist own_txn fail_at file session_logs =
     (if session_logs = [] then (False, file)
      else if (\<exists>j. fail_at = Some j \<and> j < length session_logs)
      then (True, Some empty_table)
      else (False, Some (full_table session_logs))) \<and>
   table_rows (empty_table :: 'a table) = [] \<and>
   map snd (table_rows (full_table sessions_df)) = sessions_df \<and>
   map fst (table_rows (full_table sessions_df)) = [1 ..< length sessions_df + 1] \<and>
   (\<exists>t. snd (setup_database own_txn fail_at file sessions_df) = Some t \<and>
      (map snd (table_rows t) = [] \<or> map snd (table_rows t) = sessions_df))"
proof -
  have 1: "table_rows (empty_table :: 'a table) = []" by (simp add: empty_table_def)
  have len: "length [1 ..< length sessions_df + 1] = length sessions_df"
    by (simp only: length_upt add_diff_cancel_right')
  have 2: "map snd (table_rows (full_table sessions_df)) = sessions_df"
    "map fst (table_rows (full_table sessions_df)) = [1 ..< length sessions_df + 1]"
    unfolding full_table_def table.simps
    by (rule map_snd_zip[OF len], rule map_fst_zip[OF len])
  have 3: "\<exists>t. snd (setup_database own_txn fail_at file sessions_df) = Some t \<and>
      (map snd (table_rows t) = [] \<or> map snd (table_rows t) = sessions_df)"
    unfolding setup_database_result using 1 2(1) by (simp split: if_splits)
  from setup_database_result[of own_txn fail_at "file" sessions_df]
    main_persist_result[of own_txn fail_at "file" session_logs] 1 2 3
  show ?thesis by (intro conjI)
qed

theorem persistence_all_or_nothing_witness:
  "setup_database True (Some 1) (Some (full_table [''old''])) [''a'', ''b'', ''c'']
     = (Some DatabaseError, Some empty_table) \<and>
   setup_database False (Some 1) (Some (full_table [''old''])) [''a'', ''b'', ''c'']
     = (Some DatabaseError, Some empty_table) \<and>
   setup_database False None (Some (full_table [''old''])) [''a'', ''b'', ''c'']
     = (None, Some \<lparr>table_rows = [(1, ''a''), (2, ''b''), (3, ''c'')], last_id = 3\<rparr>) \<and>
   main_persist False (Some 2) None [''a'', ''b'', ''c''] = (True, Some empty_table) \<and>
   main_persist True None None [''a'', ''b'', ''c'']
     = (False, Some \<lparr>table_rows = [(1, ''a''), (2, ''b''), (3, ''c'')], last_id = 3\<rparr>)"
proof -
  have f: "full_table [''a'', ''b'', ''c'']
      = \<lparr>table_rows = [(1, ''a''), (2, ''b''), (3, ''c'')], last_id = 3\<rparr>"
    by (simp add: full_table_def upt_rec)
  note T = persistence_all_or_nothing[where sessions_df = "[''a'', ''b'', ''c'']"
      and session_logs = "[''a'', ''b'', ''c'']"]
  from T[of True "Some 1" "Some (full_table [''old''])", THEN conjunct1]
  have 1: "setup_database True (Some 1) (Some (full_table [''old''])) [''a'', ''b'', ''c'']
     = (Some DatabaseError, Some empty_table)" by simp
  from T[of False "Some 1" "Some (full_table [''old''])", THEN conjunct1]
  have 2: "setup_database False (Some 1) (Some (full_table [''old''])) [''a'', ''b'', ''c'']
     = (Some DatabaseError, Some empty_table)" by simp
  from T[of False None "Some (full_table [''old''])", THEN conjunct1]
  have 3: "setup_database False None (Some (full_table [''old''])) [''a'', ''b'', ''c'']
     = (None, Some \<lparr>table_rows = [(1, ''a''), (2, ''b''), (3, ''c'')], last_id = 3\<rparr>)"
    by (simp add: f)
  from T[of False "Some 2" None, THEN conjunct2, THEN conjunct1]
  have 4: "main_persist False (Some 2) None [''a'', ''b'', ''c''] = (True, Some empty_table)"
    by simp
  from T[of True None None, THEN conjunct2, THEN conjunct1]
  have 5: "main_persist True None None [''a'', ''b'', ''c'']
     = (False, Some \<lparr>table_rows = [(1, ''a''), (2, ''b''), (3, ''c'')], last_id = 3\<rparr>)"
    by (simp add: f)
  from 1 2 3 4 5 show ?thesis by (intro conjI)
qed

end
